theory Spec2Isabelle
  imports Main "HOL-Library.Word"
begin

section \<open>Python values used by the DT protocol programs\<close>

text \<open>
  A Python \<open>bytes\<close>/\<open>bytearray\<close> value is a list of 8-bit words, a Python \<open>int\<close> is an
  \<open>int\<close>, and a Python \<open>str\<close> is the list of its Unicode code points.  Exceptions are
  values of \<open>py_exn\<close>; a computation that may raise returns \<open>py_exn + 'a\<close>.
\<close>

type_synonym byte = "8 word"
type_synonym bytes = "byte list"
type_synonym str = "nat list"

datatype py_exn =
    IndexError
  | KeyError
  | ValueError
  | OverflowError
  | AttributeError
  | UnicodeEncodeError
  | UnicodeDecodeError

definition ustr :: "string \<Rightarrow> str" where
  "ustr s = map of_char s"

definition raise_bind :: "'e + 'a \<Rightarrow> ('a \<Rightarrow> 'e + 'b) \<Rightarrow> 'e + 'b" where
  "raise_bind m f = (case m of Inl e \<Rightarrow> Inl e | Inr x \<Rightarrow> f x)"

text \<open>\<open>int.from_bytes(bs, "big")\<close>; the empty sequence gives 0.\<close>

definition from_bytes_big :: "bytes \<Rightarrow> int" where
  "from_bytes_big bs = foldl (\<lambda>acc b. acc * 256 + uint b) 0 bs"

text \<open>\<open>n.to_bytes(2, "big")\<close>: OverflowError for a negative or too large \<open>n\<close>.\<close>

definition to_bytes2 :: "int \<Rightarrow> py_exn + bytes" where
  "to_bytes2 n =
     (if 0 \<le> n \<and> n < 65536
      then Inr [word_of_int (n div 256), word_of_int (n mod 256)]
      else Inl OverflowError)"

text \<open>The slice \<open>xs[i:j]\<close> for non-negative bounds: it never raises and is cut at the end.\<close>

definition py_slice :: "'a list \<Rightarrow> nat \<Rightarrow> nat \<Rightarrow> 'a list" where
  "py_slice xs i j = take (j - i) (drop i xs)"

text \<open>\<open>xs[i]\<close> with Python's negative indices; IndexError out of range.\<close>

definition py_getitem :: "'a list \<Rightarrow> int \<Rightarrow> py_exn + 'a" where
  "py_getitem xs i =
     (if 0 \<le> i \<and> i < int (length xs) then Inr (xs ! nat i)
      else if i < 0 \<and> - int (length xs) \<le> i then Inr (xs ! nat (int (length xs) + i))
      else Inl IndexError)"

text \<open>\<open>bytearray(n)\<close>: \<open>n\<close> zero bytes.\<close>

definition bytearray :: "nat \<Rightarrow> bytes" where
  "bytearray n = replicate n 0"

text \<open>
  The slice assignments \<open>b[i:j] = v\<close> and \<open>b[i:] = v\<close> on a bytearray (the slice is
  replaced, whatever the length of \<open>v\<close>), and the item assignment \<open>b[i] = v\<close>, which
  raises ValueError unless \<open>v\<close> is in \<open>range(0, 256)\<close> and IndexError out of range.
\<close>

definition set_slice :: "bytes \<Rightarrow> nat \<Rightarrow> nat \<Rightarrow> bytes \<Rightarrow> bytes" where
  "set_slice b i j v = take i b @ v @ drop (max i j) b"

definition set_slice_from :: "bytes \<Rightarrow> nat \<Rightarrow> bytes \<Rightarrow> bytes" where
  "set_slice_from b i v = take i b @ v"

definition set_item :: "bytes \<Rightarrow> nat \<Rightarrow> int \<Rightarrow> py_exn + bytes" where
  "set_item b i v =
     (if \<not> (0 \<le> v \<and> v < 256) then Inl ValueError
      else if length b \<le> i then Inl IndexError
      else Inr (b[i := word_of_int v]))"

subsection \<open>Decimal rendering of integers\<close>

fun decimal :: "nat \<Rightarrow> str" where
  "decimal n = (if n < 10 then [48 + n] else decimal (n div 10) @ [48 + n mod 10])"

declare decimal.simps [simp del]

text \<open>\<open>str(n)\<close>, as an f-string renders \<open>{n}\<close>.\<close>

definition py_str :: "int \<Rightarrow> str" where
  "py_str n = (if n < 0 then 45 # decimal (nat (- n)) else decimal (nat n))"

text \<open>\<open>format(n, "02")\<close>, as an f-string renders \<open>{n:02}\<close>: zero padding to width 2,
  the sign counted in the width.\<close>

definition py_format_02 :: "int \<Rightarrow> str" where
  "py_format_02 n =
     (let sign = (if n < 0 then [45] else []); ds = decimal (nat \<bar>n\<bar>)
      in sign @ replicate (2 - length sign - length ds) 48 @ ds)"

subsection \<open>UTF-8\<close>

text \<open>
  \<open>s.encode("utf-8")\<close> and \<open>b.decode("utf-8")\<close> with the default strict error handling:
  surrogates cannot be encoded; overlong forms, surrogates, code points above U+10FFFF,
  stray continuation bytes and truncated sequences cannot be decoded.
\<close>

definition is_scalar :: "nat \<Rightarrow> bool" where
  "is_scalar c = (c < 1114112 \<and> \<not> (55296 \<le> c \<and> c < 57344))"

definition enc_cp :: "nat \<Rightarrow> nat list" where
  "enc_cp c =
     (if c < 128 then [c]
      else if c < 2048 then [192 + c div 64, 128 + c mod 64]
      else if c < 65536 then [224 + c div 4096, 128 + (c div 64) mod 64, 128 + c mod 64]
      else [240 + c div 262144, 128 + (c div 4096) mod 64, 128 + (c div 64) mod 64,
            128 + c mod 64])"

definition utf8_encode :: "str \<Rightarrow> py_exn + bytes" where
  "utf8_encode s =
     (if list_all is_scalar s then Inr (map of_nat (concat (map enc_cp s)))
      else Inl UnicodeEncodeError)"

definition is_cont :: "nat \<Rightarrow> bool" where
  "is_cont b = (128 \<le> b \<and> b < 192)"

fun utf8_dec :: "nat list \<Rightarrow> str option" where
  "utf8_dec [] = Some []"
| "utf8_dec (b0 # rest) =
    (if b0 < 128 then map_option (Cons b0) (utf8_dec rest)
     else if 194 \<le> b0 \<and> b0 < 224 then
       (case rest of
          b1 # r \<Rightarrow>
            if is_cont b1
            then map_option (Cons ((b0 - 192) * 64 + (b1 - 128))) (utf8_dec r)
            else None
        | _ \<Rightarrow> None)
     else if 224 \<le> b0 \<and> b0 < 240 then
       (case rest of
          b1 # b2 # r \<Rightarrow>
            if is_cont b1 \<and> is_cont b2
               \<and> (b0 = 224 \<longrightarrow> 160 \<le> b1) \<and> (b0 = 237 \<longrightarrow> b1 < 160)
            then map_option
                   (Cons ((b0 - 224) * 4096 + (b1 - 128) * 64 + (b2 - 128))) (utf8_dec r)
            else None
        | _ \<Rightarrow> None)
     else if 240 \<le> b0 \<and> b0 < 245 then
       (case rest of
          b1 # b2 # b3 # r \<Rightarrow>
            if is_cont b1 \<and> is_cont b2 \<and> is_cont b3
               \<and> (b0 = 240 \<longrightarrow> 144 \<le> b1) \<and> (b0 = 244 \<longrightarrow> b1 < 144)
            then map_option
                   (Cons ((b0 - 240) * 262144 + (b1 - 128) * 4096 + (b2 - 128) * 64
                          + (b3 - 128)))
                   (utf8_dec r)
            else None
        | _ \<Rightarrow> None)
     else None)"

definition utf8_decode :: "bytes \<Rightarrow> py_exn + str" where
  "utf8_decode bs =
     (case utf8_dec (map unat bs) of
        None \<Rightarrow> Inl UnicodeDecodeError
      | Some s \<Rightarrow> Inr s)"

section \<open>The requester (client.py)\<close>

definition MAGIC_NO :: int where "MAGIC_NO = 0x36FB"
definition PACKET_TYPE :: int where "PACKET_TYPE = 0x0001"
definition DT_RESPONSE :: int where "DT_RESPONSE = 0x0002"

text \<open>
  Every failure of the requester prints one line, closes the socket and calls
  \<open>sys.exit(1)\<close>.  \<open>Inl e\<close> stands for that outcome; \<open>error_message e\<close> is the line
  printed.  \<open>Uncaught x\<close> is an exception that no handler of the program catches.
\<close>

datatype client_error =
    TooSmall
  | InvalidText
  | BadMagic
  | NotResponse
  | BadLanguage
  | LengthIncorrect
  | BadYear
  | BadMonth
  | BadDay
  | BadHour
  | BadMinute
  | Uncaught py_exn

fun error_message :: "client_error \<Rightarrow> string" where
  "error_message TooSmall = ''ERROR: Packet is too small to be a DT_Response''"
| "error_message InvalidText = ''ERROR: Packet has invalid text''"
| "error_message BadMagic = ''ERROR: Packet magic number is incorrect''"
| "error_message NotResponse = ''ERROR: Packet is not a DT_Response''"
| "error_message BadLanguage = ''ERROR: Packet has invalid language''"
| "error_message LengthIncorrect = ''ERROR: Packet text length is incorrect''"
| "error_message BadYear = ''ERROR: Packet has invalid year''"
| "error_message BadMonth = ''ERROR: Packet has invalid month''"
| "error_message BadDay = ''ERROR: Packet has invalid day''"
| "error_message BadHour = ''ERROR: Packet has invalid hour''"
| "error_message BadMinute = ''ERROR: Packet has invalid minute''"
| "error_message (Uncaught x) = ''Traceback''"

text \<open>\<open>send_request\<close>, lines 56 to 59: the 6-byte DT-Request that is handed to \<open>sendto\<close>.\<close>

definition build_request :: "int \<Rightarrow> py_exn + bytes" where
  "build_request request_type =
     raise_bind (to_bytes2 MAGIC_NO) (\<lambda>m.
     raise_bind (to_bytes2 PACKET_TYPE) (\<lambda>p.
     raise_bind (to_bytes2 request_type) (\<lambda>r.
       Inr (set_slice (set_slice (set_slice (bytearray 6) 0 2 m) 2 4 p) 4 6 r))))"

text \<open>
  The body of the \<open>try\<close> in \<open>extract_response_data\<close>.  The result is the tuple the
  source returns: magic_no, packet_type, lang_code, text, text_length, day, month, year,
  hour, minute.
\<close>

type_synonym response_data = "int \<times> int \<times> int \<times> str \<times> int \<times> int \<times> int \<times> int \<times> int \<times> int"

definition byte_at :: "bytes \<Rightarrow> int \<Rightarrow> py_exn + int" where
  "byte_at response i = raise_bind (py_getitem response i) (\<lambda>b. Inr (uint b))"

definition extract_body :: "bytes \<Rightarrow> py_exn + response_data" where
  "extract_body response =
     (let magic_no = from_bytes_big (py_slice response 0 2);
          packet_type = from_bytes_big (py_slice response 2 4);
          lang_code = from_bytes_big (py_slice response 4 6);
          year = from_bytes_big (py_slice response 6 8)
      in raise_bind (byte_at response 8) (\<lambda>month.
         raise_bind (byte_at response 9) (\<lambda>day.
         raise_bind (byte_at response 10) (\<lambda>hour.
         raise_bind (byte_at response 11) (\<lambda>minute.
         raise_bind (byte_at response 12) (\<lambda>text_length.
         raise_bind (utf8_decode (py_slice response 13 (13 + nat text_length))) (\<lambda>text.
           Inr (magic_no, packet_type, lang_code, text, text_length,
                day, month, year, hour, minute))))))))"

definition extract_response_data :: "bytes \<Rightarrow> client_error + response_data" where
  "extract_response_data response =
     (case extract_body response of
        Inr t \<Rightarrow> Inr t
      | Inl IndexError \<Rightarrow> Inl TooSmall
      | Inl UnicodeDecodeError \<Rightarrow> Inl InvalidText
      | Inl x \<Rightarrow> Inl (Uncaught x))"

definition validate_response_packet_1 ::
  "bytes \<Rightarrow> int \<Rightarrow> int \<Rightarrow> int \<Rightarrow> int \<Rightarrow> client_error + bool" where
  "validate_response_packet_1 response magic_no packet_type lang_code text_length =
     (if int (length response) < 13 then Inl TooSmall
      else if magic_no \<noteq> MAGIC_NO then Inl BadMagic
      else if packet_type \<noteq> DT_RESPONSE then Inl NotResponse
      else if lang_code \<notin> set [0x0001, 0x0002, 0x0003] then Inl BadLanguage
      else if int (length response) \<noteq> 13 + text_length then Inl LengthIncorrect
      else Inr True)"

definition validate_response_packet_2 ::
  "int \<Rightarrow> int \<Rightarrow> int \<Rightarrow> int \<Rightarrow> int \<Rightarrow> client_error + bool" where
  "validate_response_packet_2 day month year hour minute =
     (if year \<ge> 2100 then Inl BadYear
      else if \<not> (1 \<le> month \<and> month \<le> 12) then Inl BadMonth
      else if \<not> (1 \<le> day \<and> day \<le> 31) then Inl BadDay
      else if \<not> (0 \<le> hour \<and> hour \<le> 23) then Inl BadHour
      else if \<not> (0 \<le> minute \<and> minute \<le> 59) then Inl BadMinute
      else Inr True)"

text \<open>\<open>print_response\<close>: the four lines printed, or KeyError from the language table.\<close>

definition lang_str_table :: "int \<rightharpoonup> str" where
  "lang_str_table =
     [0x0001 \<mapsto> ustr ''English'',
      0x0002 \<mapsto> ustr ''M'' @ [257] @ ustr ''ori'',
      0x0003 \<mapsto> ustr ''German'']"

definition print_response ::
  "int \<Rightarrow> str \<Rightarrow> int \<Rightarrow> int \<Rightarrow> int \<Rightarrow> int \<Rightarrow> int \<Rightarrow> py_exn + str list" where
  "print_response lang_code text day month year hour minute =
     (case lang_str_table lang_code of
        None \<Rightarrow> Inl KeyError
      | Some lang_str \<Rightarrow>
          Inr [lang_str @ ustr '' response received:'',
               ustr ''Text: '' @ text,
               ustr ''Date: '' @ py_str day @ ustr ''/'' @ py_str month @ ustr ''/''
                 @ py_str year,
               ustr ''Time: '' @ py_format_02 hour @ ustr '':'' @ py_format_02 minute])"

text \<open>
  \<open>process_response\<close>: the lines printed when the response is accepted, or the failure
  that ends the process.  Both validators either return True or exit.
\<close>

definition process_response :: "bytes \<Rightarrow> client_error + str list" where
  "process_response response =
     raise_bind (extract_response_data response)
       (\<lambda>(magic_no, packet_type, lang_code, text, text_length,
           day, month, year, hour, minute).
     raise_bind (validate_response_packet_1 response magic_no packet_type lang_code
                   text_length) (\<lambda>ok1.
       if ok1 then
         raise_bind (validate_response_packet_2 day month year hour minute) (\<lambda>ok2.
           if ok2 then
             (case print_response lang_code text day month year hour minute of
                Inl x \<Rightarrow> Inl (Uncaught x)
              | Inr printed \<Rightarrow> Inr printed)
           else Inr [])
       else Inr []))"

section \<open>The responder (server.py)\<close>

text \<open>
  \<open>MAGIC_NO\<close> and \<open>DT_RESPONSE\<close> have the same values in both programs and are
  shared with the requester above.
\<close>

definition DT_REQUEST :: int where "DT_REQUEST = 0x0001"

definition English :: str where "English = ustr ''English''"
definition Maori :: str where "Maori = ustr ''M'' @ [257] @ ustr ''ori''"
definition German :: str where "German = ustr ''German''"

definition MONTHS_English :: "str list" where
  "MONTHS_English =
     [ustr ''January'',
      ustr ''February'',
      ustr ''March'',
      ustr ''April'',
      ustr ''May'',
      ustr ''June'',
      ustr ''July'',
      ustr ''August'',
      ustr ''September'',
      ustr ''October'',
      ustr ''November'',
      ustr ''December'']"

definition MONTHS_Maori :: "str list" where
  "MONTHS_Maori =
     [ustr ''Kohi-t'' @ [257] @ ustr ''tea'',
      ustr ''Hui-tanguru'',
      ustr ''Pout'' @ [363] @ ustr ''-te-rangi'',
      ustr ''Paenga-wh'' @ [257] @ ustr ''wh'' @ [257],
      ustr ''Haratua'',
      ustr ''Pipiri'',
      ustr ''H'' @ [333] @ ustr ''ngingoi'',
      ustr ''Here-turi-k'' @ [333] @ ustr ''k'' @ [257],
      ustr ''Mahuru'',
      ustr ''Whiringa-'' @ [257] @ ustr ''-nuku'',
      ustr ''Whiringa-'' @ [257] @ ustr ''-rangi'',
      ustr ''Hakihea'']"

definition MONTHS_German :: "str list" where
  "MONTHS_German =
     [ustr ''Januar'',
      ustr ''Februar'',
      ustr ''M'' @ [228] @ ustr ''rz'',
      ustr ''April'',
      ustr ''Mai'',
      ustr ''Juni'',
      ustr ''Juli'',
      ustr ''August'',
      ustr ''September'',
      ustr ''Oktober'',
      ustr ''November'',
      ustr ''Dezember'']"

definition MONTHS :: "str \<rightharpoonup> str list" where
  "MONTHS = [English \<mapsto> MONTHS_English, Maori \<mapsto> MONTHS_Maori, German \<mapsto> MONTHS_German]"

definition LANGUAGE_CODES :: "int \<rightharpoonup> str" where
  "LANGUAGE_CODES = [0x0001 \<mapsto> English, 0x0002 \<mapsto> Maori, 0x0003 \<mapsto> German]"

text \<open>
  What the responder does to the outside world, in order: lines printed, sockets created,
  bound and closed, datagrams sent.  A socket is identified by a handle; an address is a
  host and a port.
\<close>

type_synonym address = "str \<times> int"

datatype action =
    Print str
  | SocketCreated nat
  | SocketBound nat int
  | SocketClosed nat
  | SendTo nat bytes address

text \<open>How a call ends: it returns a value, calls \<open>sys.exit\<close>, or raises.\<close>

datatype 'a ending = Returned 'a | SysExit int | Raised py_exn

subsection \<open>Port configuration\<close>

text \<open>
  The loop of \<open>get_valid_portnum\<close> over \<open>sys.argv[1:]\<close>.  \<open>py_int\<close> stands for Python's
  \<open>int(arg)\<close>: \<open>None\<close> where it raises ValueError.
\<close>

fun parse_ports :: "(str \<Rightarrow> int option) \<Rightarrow> str list \<Rightarrow> int list \<Rightarrow> action list \<times> int list option" where
  "parse_ports py_int [] PortNums = ([], Some PortNums)"
| "parse_ports py_int (arg # args) PortNums =
     (case py_int arg of
        None \<Rightarrow> ([Print (ustr ''ERROR: Given port '' @ [39] @ arg @ [39] @ ustr '' is not a positive integer'')], None)
      | Some port \<Rightarrow> parse_ports py_int args (PortNums @ [port]))"

definition get_valid_portnum ::
  "(str \<Rightarrow> int option) \<Rightarrow> str list \<Rightarrow> action list \<times> int list option ending" where
  "get_valid_portnum py_int argv =
     (if length argv \<noteq> 4
      then ([Print (ustr ''ERROR: Incorrect number of command line arguments'')], SysExit 1)
      else
        (case parse_ports py_int (drop 1 argv) [] of
           (out, None) \<Rightarrow> (out, Returned None)
         | (out, Some PortNums) \<Rightarrow>
             if length (remdups PortNums) \<noteq> 3
             then (out @ [Print (ustr ''ERROR: Duplicate ports given'')], Returned None)
             else if list_ex (\<lambda>p. p \<le> 0) PortNums
             then (out @ map (\<lambda>p. Print (ustr ''ERROR: Given port '' @ [39] @ py_str p
                                          @ [39] @ ustr '' is not a positive integer''))
                          (filter (\<lambda>p. p \<le> 0) PortNums),
                   Returned None)
             else if \<not> list_all (\<lambda>p. 1024 \<le> p \<and> p \<le> 64000) PortNums
             then (out @ map (\<lambda>p. Print (ustr ''ERROR: Given port '' @ [39] @ py_str p
                                          @ [39] @ ustr '' is not in the range [1024, 64000]''))
                          (filter (\<lambda>p. \<not> (1024 \<le> p \<and> p \<le> 64000)) PortNums),
                   Returned None)
             else (out, Returned (Some PortNums))))"

text \<open>
  \<open>bind_socket\<close>.  What the operating system answers is an input: the socket cannot be
  created, or it is created (with a handle) and the bind fails or succeeds.
\<close>

datatype bind_outcome = CreationFails | BindingFails nat | BindingSucceeds nat

definition bind_socket :: "bind_outcome \<Rightarrow> int \<Rightarrow> str \<Rightarrow> action list \<times> nat option" where
  "bind_socket os port language =
     (let announce = Print (ustr ''Binding '' @ language @ ustr '' to port '' @ py_str port)
      in case os of
           CreationFails \<Rightarrow> ([announce, Print (ustr ''ERROR: Socket creation failed'')], None)
         | BindingFails s \<Rightarrow>
             ([announce, SocketCreated s, Print (ustr ''ERROR: Socket binding failed''),
               SocketClosed s], None)
         | BindingSucceeds s \<Rightarrow> ([announce, SocketCreated s, SocketBound s port], Some s))"

text \<open>
  \<open>main\<close>, lines 164 to 177: the port check and the loop binding one socket per
  language.  \<open>os i\<close> is the operating system's answer to the \<open>i\<close>-th bind attempt.  The
  result is the list of the three sockets with which the dispatch loop is entered.
\<close>

fun bind_all ::
  "(nat \<Rightarrow> bind_outcome) \<Rightarrow> int list \<Rightarrow> (nat \<times> str) list \<Rightarrow> nat list
     \<Rightarrow> action list \<times> nat list ending" where
  "bind_all os ports [] sockets = ([], Returned sockets)"
| "bind_all os ports ((i, lang) # rest) sockets =
     (case py_getitem ports (int i) of
        Inl x \<Rightarrow> ([], Raised x)
      | Inr port \<Rightarrow>
          (case bind_socket (os i) port lang of
             (out, None) \<Rightarrow> (out @ map SocketClosed sockets, SysExit 1)
           | (out, Some sock) \<Rightarrow>
               (case bind_all os ports rest (sockets @ [sock]) of
                  (out', r) \<Rightarrow> (out @ out', r))))"

definition main_startup ::
  "(str \<Rightarrow> int option) \<Rightarrow> (nat \<Rightarrow> bind_outcome) \<Rightarrow> str list \<Rightarrow> action list \<times> nat list ending" where
  "main_startup py_int os argv =
     (case get_valid_portnum py_int argv of
        (out, SysExit n) \<Rightarrow> (out, SysExit n)
      | (out, Raised x) \<Rightarrow> (out, Raised x)
      | (out, Returned None) \<Rightarrow> (out, SysExit 1)
      | (out, Returned (Some ports)) \<Rightarrow>
          if ports = [] then (out, SysExit 1)
          else
            (case bind_all os ports (enumerate 0 [English, Maori, German]) [] of
               (out', r) \<Rightarrow> (out @ out', r)))"

subsection \<open>Request validation and text formatting\<close>

definition validate_field :: "int \<Rightarrow> int \<Rightarrow> int \<Rightarrow> action list \<times> bool" where
  "validate_field MagicNo PacketType RequestType =
     (if MagicNo \<noteq> MAGIC_NO
      then ([Print (ustr ''ERROR: Packet magic number is incorrect, dropping packet'')], False)
      else if PacketType \<noteq> DT_REQUEST
      then ([Print (ustr ''ERROR: Packet is not a DT_Request, dropping packet'')], False)
      else if RequestType \<notin> set [0x0001, 0x0002]
      then ([Print (ustr ''ERROR: Packet has invalid type, dropping packet'')], False)
      else ([], True))"

text \<open>
  The value of \<open>datetime.datetime.now()\<close>, as far as the program reads it.  The fields of
  a Python \<open>datetime\<close> are always in the ranges of \<open>valid_datetime\<close>.
\<close>

record datetime =
  dt_year :: int
  dt_month :: int
  dt_day :: int
  dt_hour :: int
  dt_minute :: int

definition valid_datetime :: "datetime \<Rightarrow> bool" where
  "valid_datetime dt =
     (1 \<le> dt_year dt \<and> dt_year dt \<le> 9999 \<and> 1 \<le> dt_month dt \<and> dt_month dt \<le> 12
      \<and> 1 \<le> dt_day dt \<and> dt_day dt \<le> 31 \<and> 0 \<le> dt_hour dt \<and> dt_hour dt \<le> 23
      \<and> 0 \<le> dt_minute dt \<and> dt_minute dt \<le> 59)"

text \<open>\<open>MONTHS[lang][dt.month - 1]\<close>: KeyError or IndexError when there is no such entry.\<close>

definition month_name :: "str \<Rightarrow> datetime \<Rightarrow> py_exn + str" where
  "month_name lang dt =
     (case MONTHS lang of
        None \<Rightarrow> Inl KeyError
      | Some names \<Rightarrow> py_getitem names (dt_month dt - 1))"

text \<open>
  \<open>format_date\<close> and \<open>format_time\<close>.  A language that matches no branch falls off the end
  of the function, which returns Python's \<open>None\<close>.
\<close>

definition format_date :: "datetime \<Rightarrow> str \<Rightarrow> py_exn + str option" where
  "format_date dt lang =
     (if lang = English then
        raise_bind (month_name lang dt) (\<lambda>m.
          Inr (Some (ustr ''Today'' @ [39] @ ustr ''s date is '' @ m @ ustr '' '' @ py_str (dt_day dt) @ ustr '', ''
                     @ py_str (dt_year dt))))
      else if lang = Maori then
        raise_bind (month_name lang dt) (\<lambda>m.
          Inr (Some (ustr ''Ko te r'' @ [257] @ ustr '' o t'' @ [275] @ ustr ''nei r'' @ [257] @ ustr '' ko '' @ m @ ustr '' '' @ py_str (dt_day dt) @ ustr '', ''
                     @ py_str (dt_year dt))))
      else if lang = German then
        raise_bind (month_name lang dt) (\<lambda>m.
          Inr (Some (ustr ''Heute ist der '' @ py_str (dt_day dt) @ ustr ''. '' @ m @ ustr '' ''
                     @ py_str (dt_year dt))))
      else Inr None)"

definition format_time :: "datetime \<Rightarrow> str \<Rightarrow> py_exn + str option" where
  "format_time dt lang =
     (if lang = English then
        Inr (Some (ustr ''The current time is '' @ py_format_02 (dt_hour dt) @ ustr '':''
                   @ py_format_02 (dt_minute dt)))
      else if lang = Maori then
        Inr (Some (ustr ''Ko te w'' @ [257] @ ustr '' o t'' @ [275] @ ustr ''nei w'' @ [257] @ ustr '' '' @ py_format_02 (dt_hour dt) @ ustr '':''
                   @ py_format_02 (dt_minute dt)))
      else if lang = German then
        Inr (Some (ustr ''Die Uhrzeit ist '' @ py_format_02 (dt_hour dt) @ ustr '':''
                   @ py_format_02 (dt_minute dt)))
      else Inr None)"

subsection \<open>Building and sending the response\<close>

definition fill_packet_fields :: "bytes \<Rightarrow> int \<Rightarrow> datetime \<Rightarrow> bytes \<Rightarrow> py_exn + bytes" where
  "fill_packet_fields ByteArr LangCode Dt TextByte =
     raise_bind (to_bytes2 MAGIC_NO) (\<lambda>magic.
     raise_bind (to_bytes2 DT_RESPONSE) (\<lambda>ptype.
     raise_bind (to_bytes2 LangCode) (\<lambda>lang.
     raise_bind (to_bytes2 (dt_year Dt)) (\<lambda>year.
     raise_bind (set_item
                   (set_slice (set_slice (set_slice (set_slice ByteArr 0 2 magic) 2 4 ptype)
                      4 6 lang) 6 8 year)
                   8 (dt_month Dt)) (\<lambda>b8.
     raise_bind (set_item b8 9 (dt_day Dt)) (\<lambda>b9.
     raise_bind (set_item b9 10 (dt_hour Dt)) (\<lambda>b10.
     raise_bind (set_item b10 11 (dt_minute Dt)) (\<lambda>b11.
     raise_bind (set_item b11 12 (int (length TextByte))) (\<lambda>b12.
       Inr (set_slice_from b12 13 TextByte))))))))))"

text \<open>
  \<open>handle_request\<close>, lines 143 to 159: encode the text, drop it when it is too long,
  otherwise build the packet and send it.  \<open>send_ok\<close> tells whether \<open>sock.sendto\<close>
  succeeds; when it raises, the handler prints a line and returns.  The result is the
  trace of actions, and the exception raised if the call does not return.
\<close>

definition send_text ::
  "str option \<Rightarrow> address \<Rightarrow> nat \<Rightarrow> int \<Rightarrow> datetime \<Rightarrow> bool \<Rightarrow> action list \<times> py_exn option" where
  "send_text text addr sock lang_code dt send_ok =
     (case text of
        None \<Rightarrow> ([], Some AttributeError)
      | Some t \<Rightarrow>
          (case utf8_encode t of
             Inl x \<Rightarrow> ([], Some x)
           | Inr text_bytes \<Rightarrow>
               if length text_bytes > 255
               then ([Print (ustr ''ERROR: Text too long, dropping packet'')], None)
               else
                 (case fill_packet_fields (bytearray (13 + length text_bytes)) lang_code dt
                         text_bytes of
                    Inl x \<Rightarrow> ([], Some x)
                  | Inr response \<Rightarrow>
                      if send_ok
                      then ([SendTo sock response addr, Print (ustr ''Response sent'')], None)
                      else ([Print (ustr ''ERROR: Sending failed, dropping packet'')], None))))"

text \<open>
  \<open>handle_request\<close>.  \<open>now\<close> is what the clock returns when the handler reads it.
\<close>

definition handle_request ::
  "bytes \<Rightarrow> address \<Rightarrow> nat \<Rightarrow> int \<Rightarrow> datetime \<Rightarrow> bool \<Rightarrow> action list \<times> py_exn option" where
  "handle_request data addr sock lang_code now send_ok =
     (let magic_no = from_bytes_big (py_slice data 0 2);
          packet_type = from_bytes_big (py_slice data 2 4);
          request_type = from_bytes_big (py_slice data 4 6)
      in if length data \<noteq> 6
         then ([Print (ustr ''ERROR: Packet length incorrect for a DT_Request, dropping packet'')],
               None)
         else
           (case validate_field magic_no packet_type request_type of
              (out, False) \<Rightarrow> (out, None)
            | (out, True) \<Rightarrow>
                (case LANGUAGE_CODES lang_code of
                   None \<Rightarrow> (out, Some KeyError)
                 | Some lang \<Rightarrow>
                     if request_type = 0x0001 then
                       (case format_date now lang of
                          Inl x \<Rightarrow> (out, Some x)
                        | Inr text \<Rightarrow>
                            (case send_text text addr sock lang_code now send_ok of
                               (out', r) \<Rightarrow>
                                 (out @ [Print (lang @ ustr '' received date request from ''
                                                @ fst addr)] @ out', r)))
                     else
                       (case format_time now lang of
                          Inl x \<Rightarrow> (out, Some x)
                        | Inr text \<Rightarrow>
                            (case send_text text addr sock lang_code now send_ok of
                               (out', r) \<Rightarrow>
                                 (out @ [Print (lang @ ustr '' received time request from ''
                                                @ fst addr)] @ out', r))))))"

subsection \<open>The dispatch loop\<close>

text \<open>
  One ready socket of one wake-up (\<open>main\<close>, lines 185 to 201).  What \<open>recvfrom\<close> gives
  is an input.  The second component of the result tells whether \<open>break\<close> was reached.
  Any exception raised inside the \<open>try\<close>, also by the handler, is caught by the bare
  \<open>except\<close>.
\<close>

datatype recv_result = RecvTimeout | RecvFailed | Datagram bytes address

definition dispatch ::
  "nat list \<Rightarrow> nat \<Rightarrow> bytes \<Rightarrow> address \<Rightarrow> datetime \<Rightarrow> bool
     \<Rightarrow> (action list \<times> py_exn option) \<times> bool" where
  "dispatch sockets sock data addr now send_ok =
     (case py_getitem sockets 0 of
        Inl x \<Rightarrow> (([], Some x), False)
      | Inr s0 \<Rightarrow>
          if sock = s0 then (handle_request data addr sock 0x0001 now send_ok, False)
          else
            (case py_getitem sockets 1 of
               Inl x \<Rightarrow> (([], Some x), False)
             | Inr s1 \<Rightarrow>
                 if sock = s1 then (handle_request data addr sock 0x0002 now send_ok, False)
                 else
                   (case py_getitem sockets 2 of
                      Inl x \<Rightarrow> (([], Some x), False)
                    | Inr s2 \<Rightarrow>
                        if sock = s2
                        then (handle_request data addr sock 0x0003 now send_ok, False)
                        else (([], None), True))))"

definition serve_socket ::
  "nat list \<Rightarrow> nat \<Rightarrow> recv_result \<Rightarrow> datetime \<Rightarrow> bool \<Rightarrow> action list \<times> bool" where
  "serve_socket sockets sock rcv now send_ok =
     (case rcv of
        RecvTimeout \<Rightarrow> ([Print (ustr ''ERROR: Receiving timed out, dropping packet'')], False)
      | RecvFailed \<Rightarrow> ([Print (ustr ''ERROR: Receiving failed, dropping packet'')], False)
      | Datagram data addr \<Rightarrow>
          (case dispatch sockets sock data addr now send_ok of
             ((out, None), brk) \<Rightarrow> (out, brk)
           | ((out, Some x), brk) \<Rightarrow>
               (out @ [Print (ustr ''ERROR: Receiving failed, dropping packet'')], False)))"

text \<open>
  The \<open>for\<close> loop over the ready sockets of one wake-up: each comes with what its
  \<open>recvfrom\<close> gives, the clock reading and whether its \<open>sendto\<close> succeeds.
\<close>

fun serve_ready ::
  "nat list \<Rightarrow> (nat \<times> recv_result \<times> datetime \<times> bool) list \<Rightarrow> action list" where
  "serve_ready sockets [] = []"
| "serve_ready sockets ((sock, rcv, now, send_ok) # rest) =
     (case serve_socket sockets sock rcv now send_ok of
        (out, brk) \<Rightarrow> if brk then out else out @ serve_ready sockets rest)"


section \<open>Example inputs\<close>

text \<open>A well-formed header that declares five bytes of text, followed by none.\<close>

definition truncated_response :: bytes where
  "truncated_response = [0x36, 0xFB, 0, 2, 0, 1, 0x07, 0xE8, 5, 17, 9, 30, 5]"

text \<open>Wrong magic number, packet type, language code and length, and a text byte 0xFF.\<close>

definition bad_text_response :: bytes where
  "bad_text_response = [0, 0, 0, 9, 0, 7, 0x07, 0xE8, 5, 17, 9, 30, 4, 0xFF]"

text \<open>A structurally valid response whose month field is 13.\<close>

definition month13_response :: bytes where
  "month13_response = [0x36, 0xFB, 0, 2, 0, 1, 0x07, 0xE8, 13, 17, 9, 30, 2, 0x68, 0x69]"

text \<open>Further inputs used below.\<close>

text \<open>A datagram of five bytes.\<close>

definition short_datagram :: bytes where
  "short_datagram = [0x36, 0xFB, 0, 1, 0]"

text \<open>Six bytes with a wrong magic number, packet type and request type.\<close>

definition bad_magic_datagram :: bytes where
  "bad_magic_datagram = [0x36, 0xFA, 0, 9, 0, 9]"

text \<open>A clock reading: 17 May 2024, 09:30.\<close>

definition example_now :: datetime where
  "example_now = \<lparr>dt_year = 2024, dt_month = 5, dt_day = 17, dt_hour = 9, dt_minute = 30\<rparr>"

text \<open>The address of a requester.\<close>

definition example_addr :: address where
  "example_addr = (ustr ''127.0.0.1'', 50000)"

text \<open>A text of two code points, the second outside ASCII.\<close>

definition example_text :: str where
  "example_text = [77, 257]"

text \<open>The DT-Response carrying that text in language 2 at that clock reading.\<close>

definition example_response :: bytes where
  "example_response = [0x36, 0xFB, 0, 2, 0, 2, 0x07, 0xE8, 5, 17, 9, 30, 3, 77, 0xC4, 0x81]"

text \<open>A text of 256 ASCII letters.\<close>

definition long_text :: str where
  "long_text = replicate 256 97"

text \<open>The date request a requester sends.\<close>

definition date_request :: bytes where
  "date_request = [0x36, 0xFB, 0, 1, 0, 1]"

text \<open>The handles of three bound sockets.\<close>

definition example_sockets :: "nat list" where
  "example_sockets = [3, 4, 5]"

text \<open>The date sentence of the second language at the example clock reading.\<close>

definition maori_date_text :: str where
  "maori_date_text = ustr ''Ko te r'' @ [257] @ ustr '' o t'' @ [275] @ ustr ''nei r'' @ [257] @ ustr '' ko Haratua 17, 2024''"

text \<open>The DT-Response that carries it.\<close>

definition maori_date_response :: bytes where
  "maori_date_response =
    [54, 251, 0, 2, 0, 2, 7, 232, 5, 17, 9, 30, 42, 75, 111, 32, 116, 101, 32, 114, 196, 129, 32, 111, 32, 116, 196, 147, 110, 101, 105, 32, 114, 196, 129, 32, 107, 111, 32, 72, 97, 114, 97, 116, 117, 97, 32, 49, 55, 44, 32, 50, 48, 50, 52]"

text \<open>An instance of the integer parser: plain decimal digit strings, on which it agrees with \<open>int(arg)\<close>.\<close>

definition decimal_int :: "str \<Rightarrow> int option" where
  "decimal_int s =
     (if s \<noteq> [] \<and> list_all (\<lambda>c. 48 \<le> c \<and> c \<le> 57) s
      then Some (int (foldl (\<lambda>a c. a * 10 + (c - 48)) 0 s))
      else None)"

text \<open>Command lines: three valid ports, a port of 80, and a repeated port.\<close>

definition good_argv :: "str list" where
  "good_argv = [ustr ''server.py'', ustr ''30001'', ustr ''30002'', ustr ''30003'']"

definition port80_argv :: "str list" where
  "port80_argv = [ustr ''server.py'', ustr ''80'', ustr ''30002'', ustr ''30003'']"

definition duplicate_argv :: "str list" where
  "duplicate_argv = [ustr ''server.py'', ustr ''30001'', ustr ''30001'', ustr ''30003'']"

text \<open>An operating system on which every bind succeeds.\<close>

definition all_bound :: "nat \<Rightarrow> bind_outcome" where
  "all_bound i = BindingSucceeds (i + 3)"

section \<open>Properties of the requester's decoding and validation\<close>

lemma extract_body_13:
  assumes "13 \<le> length r"
  shows "extract_body r =
     raise_bind (utf8_decode (py_slice r 13 (13 + unat (r ! 12)))) (\<lambda>text.
       Inr (from_bytes_big (py_slice r 0 2), from_bytes_big (py_slice r 2 4),
            from_bytes_big (py_slice r 4 6), text, uint (r ! 12),
            uint (r ! 9), uint (r ! 8), from_bytes_big (py_slice r 6 8),
            uint (r ! 10), uint (r ! 11)))"
  using assms
  by (simp add: extract_body_def byte_at_def py_getitem_def raise_bind_def Let_def)

lemma extract_body_short:
  assumes "length r < 13"
  shows "extract_body r = Inl IndexError"
  using assms
  by (auto simp add: extract_body_def byte_at_def py_getitem_def raise_bind_def Let_def)

lemma utf8_decode_cases:
  "utf8_decode bs = Inl UnicodeDecodeError \<or> (\<exists>t. utf8_decode bs = Inr t)"
  by (simp add: utf8_decode_def split: option.splits)

lemma validate_2_cases:
  "validate_response_packet_2 day month year hour minute = Inr True
   \<or> (\<exists>e. validate_response_packet_2 day month year hour minute = Inl e)"
  by (simp add: validate_response_packet_2_def)

lemma validate_1_cases:
  "validate_response_packet_1 r mg pt lc tlen = Inr True
   \<or> (\<exists>e. validate_response_packet_1 r mg pt lc tlen = Inl e)"
  by (simp add: validate_response_packet_1_def)

lemma validate_2_iff:
  "validate_response_packet_2 day month year hour minute = Inr True
     \<longleftrightarrow> year < 2100 \<and> 1 \<le> month \<and> month \<le> 12 \<and> 1 \<le> day \<and> day \<le> 31
          \<and> 0 \<le> hour \<and> hour \<le> 23 \<and> 0 \<le> minute \<and> minute \<le> 59"
  by (auto simp add: validate_response_packet_2_def)

lemma process_rejects:
  assumes "extract_response_data r = Inr (mg, pt, lc, tx, tlen, day, month, year, hour, minute)"
    and "validate_response_packet_2 day month year hour minute \<noteq> Inr True"
  shows "\<exists>e. process_response r = Inl e"
proof -
  from assms(2) obtain e where e: "validate_response_packet_2 day month year hour minute = Inl e"
    using validate_2_cases by blast
  show ?thesis
    using validate_1_cases [of r mg pt lc tlen] e assms(1)
    by (auto simp add: process_response_def raise_bind_def)
qed

lemma validate_1_mismatch:
  assumes "13 \<le> length r" and "int (length r) \<noteq> 13 + tlen"
  shows "validate_response_packet_1 r mg pt lc tlen
         = Inl (if mg \<noteq> MAGIC_NO then BadMagic
                else if pt \<noteq> DT_RESPONSE then NotResponse
                else if lc \<notin> {1, 2, 3} then BadLanguage
                else LengthIncorrect)"
  using assms by (simp add: validate_response_packet_1_def)

lemma month13_extract:
  "extract_response_data month13_response
     = Inr (0x36FB, 2, 1, [104, 105], 2, 17, 13, 2024, 9, 30)"
  by (simp add: extract_response_data_def extract_body_13 month13_response_def
      py_slice_def from_bytes_big_def utf8_decode_def raise_bind_def)

text \<open>
  C3.  As stated the claim fails: a response of at least 13 bytes whose Length byte
  declares more text than follows is not reported as too small.  The slice
  \<open>response[13:13 + text_length]\<close> is cut at the end of the packet without an
  IndexError, so decoding succeeds on the shorter text and the length check of
  \<open>validate_response_packet_1\<close> reports the mismatch.
\<close>

theorem truncated_text_counterexample:
  "13 \<le> length truncated_response
   \<and> length truncated_response - 13 < unat (truncated_response ! 12)
   \<and> extract_response_data truncated_response
       = Inr (0x36FB, 2, 1, [], 5, 17, 5, 2024, 9, 30)
   \<and> process_response truncated_response = Inl LengthIncorrect
   \<and> process_response truncated_response \<noteq> Inl TooSmall"
proof -
  have x: "extract_response_data truncated_response
       = Inr (0x36FB, 2, 1, [], 5, 17, 5, 2024, 9, 30)"
    by (simp add: extract_response_data_def extract_body_13 truncated_response_def
      py_slice_def from_bytes_big_def utf8_decode_def raise_bind_def)
  have p: "process_response truncated_response = Inl LengthIncorrect"
    unfolding process_response_def x
    by (simp add: raise_bind_def validate_response_packet_1_def truncated_response_def
        MAGIC_NO_def DT_RESPONSE_def)
  have l: "13 \<le> length truncated_response"
    "length truncated_response - 13 < unat (truncated_response ! 12)"
    by (simp_all add: truncated_response_def)
  from x p l show ?thesis by simp
qed

text \<open>
  C3, amended.  For every response of at least 13 bytes whose Length byte exceeds the
  number of bytes after offset 13, the requester fails, and never with the too-small
  error: with the invalid-text error when the text that is there is not valid UTF-8,
  otherwise with the first structural check that fails, which is the length check when
  magic number, packet type and language code are right.
\<close>

theorem truncated_text_error:
  assumes "13 \<le> length response"
    and "length response - 13 < unat (response ! 12)"
  shows "process_response response =
           Inl (case utf8_decode (py_slice response 13 (13 + unat (response ! 12))) of
                  Inl x \<Rightarrow> InvalidText
                | Inr text \<Rightarrow>
                    if from_bytes_big (py_slice response 0 2) \<noteq> MAGIC_NO then BadMagic
                    else if from_bytes_big (py_slice response 2 4) \<noteq> DT_RESPONSE
                    then NotResponse
                    else if from_bytes_big (py_slice response 4 6) \<notin> {1, 2, 3}
                    then BadLanguage
                    else LengthIncorrect)
         \<and> process_response response \<noteq> Inl TooSmall"
proof -
  let ?slice = "py_slice response 13 (13 + unat (response ! 12))"
  let ?verdict = "if from_bytes_big (py_slice response 0 2) \<noteq> MAGIC_NO then BadMagic
                    else if from_bytes_big (py_slice response 2 4) \<noteq> DT_RESPONSE
                    then NotResponse
                    else if from_bytes_big (py_slice response 4 6) \<notin> {1, 2, 3}
                    then BadLanguage
                    else LengthIncorrect"
  have "int (unat (response ! 12)) = uint (response ! 12)"
    by simp
  then have n: "int (length response) \<noteq> 13 + uint (response ! 12)"
    using assms by linarith
  have v: "?verdict \<noteq> TooSmall"
    by simp
  consider (bad) "utf8_decode ?slice = Inl UnicodeDecodeError"
    | (good) t where "utf8_decode ?slice = Inr t"
    using utf8_decode_cases by blast
  then show ?thesis
  proof cases
    case bad
    then have "process_response response = Inl InvalidText"
      using assms(1)
      by (simp add: process_response_def extract_response_data_def extract_body_13
          raise_bind_def)
    with bad show ?thesis by simp
  next
    case good
    have "process_response response = Inl ?verdict"
      using assms(1)
      by (simp add: process_response_def extract_response_data_def extract_body_13
          raise_bind_def good validate_1_mismatch [OF assms(1) n])
    with good v show ?thesis by simp
  qed
qed

theorem truncated_text_error_witness:
  "13 \<le> length truncated_response
   \<and> length truncated_response - 13 < unat (truncated_response ! 12)
   \<and> process_response truncated_response = Inl LengthIncorrect"
proof -
  have l: "13 \<le> length truncated_response"
    "length truncated_response - 13 < unat (truncated_response ! 12)"
    by (simp_all add: truncated_response_def)
  have "utf8_decode (py_slice truncated_response 13 (13 + unat (truncated_response ! 12)))
          = Inr []"
    by (simp add: truncated_response_def py_slice_def utf8_decode_def)
  moreover have "from_bytes_big (py_slice truncated_response 0 2) = MAGIC_NO"
    "from_bytes_big (py_slice truncated_response 2 4) = DT_RESPONSE"
    "from_bytes_big (py_slice truncated_response 4 6) = 1"
    by (simp_all add: truncated_response_def py_slice_def
        from_bytes_big_def MAGIC_NO_def DT_RESPONSE_def)
  ultimately show ?thesis
    using truncated_text_error [OF l] l by simp
qed

text \<open>
  C4.  The semantic pass accepts exactly when Year < 2100, Month in 1..12, Day in 1..31,
  Hour in 0..23 and Minute in 0..59.  The boundary values 2099, 1, 12, 23 and 59 are
  accepted; 2100, 0, 13, 24 and 60 are each rejected.  A rejection ends the processing
  of the response with an error: nothing of it is printed.
\<close>

theorem semantic_validation:
  "(validate_response_packet_2 day month year hour minute = Inr True
      \<longleftrightarrow> year < 2100 \<and> 1 \<le> month \<and> month \<le> 12 \<and> 1 \<le> day \<and> day \<le> 31
          \<and> 0 \<le> hour \<and> hour \<le> 23 \<and> 0 \<le> minute \<and> minute \<le> 59)
   \<and> (extract_response_data r = Inr (mg, pt, lc, tx, tlen, day, month, year, hour, minute)
        \<and> validate_response_packet_2 day month year hour minute \<noteq> Inr True
        \<longrightarrow> (\<exists>e. process_response r = Inl e))
   \<and> validate_response_packet_2 1 1 2099 0 0 = Inr True
   \<and> validate_response_packet_2 1 12 2099 23 59 = Inr True
   \<and> validate_response_packet_2 1 1 2100 0 0 = Inl BadYear
   \<and> validate_response_packet_2 1 0 2099 0 0 = Inl BadMonth
   \<and> validate_response_packet_2 1 13 2099 0 0 = Inl BadMonth
   \<and> validate_response_packet_2 1 1 2099 24 0 = Inl BadHour
   \<and> validate_response_packet_2 1 1 2099 0 60 = Inl BadMinute"
proof -
  have a: "validate_response_packet_2 day month year hour minute = Inr True
      \<longleftrightarrow> year < 2100 \<and> 1 \<le> month \<and> month \<le> 12 \<and> 1 \<le> day \<and> day \<le> 31
          \<and> 0 \<le> hour \<and> hour \<le> 23 \<and> 0 \<le> minute \<and> minute \<le> 59"
    by (rule validate_2_iff)
  have b: "extract_response_data r = Inr (mg, pt, lc, tx, tlen, day, month, year, hour, minute)
        \<and> validate_response_packet_2 day month year hour minute \<noteq> Inr True
        \<longrightarrow> (\<exists>e. process_response r = Inl e)"
    using process_rejects [of r mg pt lc tx tlen day month year hour minute]
    by blast
  have c: "validate_response_packet_2 1 1 2099 0 0 = Inr True"
    "validate_response_packet_2 1 12 2099 23 59 = Inr True"
    "validate_response_packet_2 1 1 2100 0 0 = Inl BadYear"
    "validate_response_packet_2 1 0 2099 0 0 = Inl BadMonth"
    "validate_response_packet_2 1 13 2099 0 0 = Inl BadMonth"
    "validate_response_packet_2 1 1 2099 24 0 = Inl BadHour"
    "validate_response_packet_2 1 1 2099 0 60 = Inl BadMinute"
    by (simp_all add: validate_response_packet_2_def)
  from a b c show ?thesis by blast
qed

theorem semantic_validation_witness:
  "extract_response_data month13_response
     = Inr (0x36FB, 2, 1, [104, 105], 2, 17, 13, 2024, 9, 30)
   \<and> validate_response_packet_2 17 13 2024 9 30 = Inl BadMonth
   \<and> process_response month13_response = Inl BadMonth"
proof -
  have v: "validate_response_packet_2 17 13 2024 9 30 = Inl BadMonth"
    by (simp add: validate_response_packet_2_def)
  obtain e where e: "process_response month13_response = Inl e"
    using semantic_validation [of 17 13 2024 9 30 month13_response "0x36FB" 2 1 "[104, 105]" 2]
      month13_extract v by auto
  have "process_response month13_response = Inl BadMonth"
    unfolding process_response_def month13_extract
    by (simp add: raise_bind_def validate_response_packet_1_def
        validate_response_packet_2_def month13_response_def MAGIC_NO_def DT_RESPONSE_def)
  with month13_extract v e show ?thesis by simp
qed

text \<open>
  C10.  The text is decoded in \<open>extract_response_data\<close>, before any check of
  \<open>validate_response_packet_1\<close>: a response of at least 13 bytes whose text slice is not
  valid UTF-8 ends with the invalid-text error, whatever its magic number, packet type,
  language code and declared length are.
\<close>

theorem invalid_text_first:
  assumes "13 \<le> length response"
    and "utf8_decode (py_slice response 13 (13 + unat (response ! 12)))
           = Inl UnicodeDecodeError"
  shows "extract_response_data response = Inl InvalidText
         \<and> process_response response = Inl InvalidText"
  using assms
  by (simp add: process_response_def extract_response_data_def extract_body_13 raise_bind_def)

theorem invalid_text_first_witness:
  "13 \<le> length bad_text_response
   \<and> utf8_decode (py_slice bad_text_response 13 (13 + unat (bad_text_response ! 12)))
       = Inl UnicodeDecodeError
   \<and> from_bytes_big (py_slice bad_text_response 0 2) \<noteq> MAGIC_NO
   \<and> from_bytes_big (py_slice bad_text_response 2 4) \<noteq> DT_RESPONSE
   \<and> from_bytes_big (py_slice bad_text_response 4 6) \<notin> {1, 2, 3}
   \<and> int (length bad_text_response) \<noteq> 13 + uint (bad_text_response ! 12)
   \<and> extract_response_data bad_text_response = Inl InvalidText
   \<and> process_response bad_text_response = Inl InvalidText"
proof -
  have a: "13 \<le> length bad_text_response" by (simp add: bad_text_response_def)
  have b: "utf8_decode (py_slice bad_text_response 13 (13 + unat (bad_text_response ! 12)))
       = Inl UnicodeDecodeError"
    by (simp add: bad_text_response_def py_slice_def utf8_decode_def)
  have c: "from_bytes_big (py_slice bad_text_response 0 2) \<noteq> MAGIC_NO"
   "from_bytes_big (py_slice bad_text_response 2 4) \<noteq> DT_RESPONSE"
   "from_bytes_big (py_slice bad_text_response 4 6) \<notin> {1, 2, 3}"
   "int (length bad_text_response) \<noteq> 13 + uint (bad_text_response ! 12)"
    by (simp_all add: bad_text_response_def py_slice_def from_bytes_big_def MAGIC_NO_def
        DT_RESPONSE_def)
  from invalid_text_first [OF a b] a b c show ?thesis by simp
qed

section \<open>Properties of the request path\<close>

text \<open>
  C2.  \<open>validate_field\<close> checks the magic number first, then the packet type, then
  the request type, and the first check that fails decides the line printed, whatever
  the later fields are.  A 6-byte datagram that fails a check makes the handler print
  that one line and return: nothing is sent and nothing is raised.
\<close>

theorem request_validation_order:
  "(MagicNo \<noteq> MAGIC_NO \<longrightarrow>
      validate_field MagicNo PacketType RequestType
        = ([Print (ustr ''ERROR: Packet magic number is incorrect, dropping packet'')], False))
   \<and> (MagicNo = MAGIC_NO \<and> PacketType \<noteq> DT_REQUEST \<longrightarrow>
      validate_field MagicNo PacketType RequestType
        = ([Print (ustr ''ERROR: Packet is not a DT_Request, dropping packet'')], False))
   \<and> (MagicNo = MAGIC_NO \<and> PacketType = DT_REQUEST \<and> RequestType \<notin> {1, 2} \<longrightarrow>
      validate_field MagicNo PacketType RequestType
        = ([Print (ustr ''ERROR: Packet has invalid type, dropping packet'')], False))
   \<and> (MagicNo = MAGIC_NO \<and> PacketType = DT_REQUEST \<and> RequestType \<in> {1, 2} \<longrightarrow>
      validate_field MagicNo PacketType RequestType = ([], True))
   \<and> (length data = 6
        \<and> \<not> snd (validate_field (from_bytes_big (py_slice data 0 2))
                   (from_bytes_big (py_slice data 2 4)) (from_bytes_big (py_slice data 4 6)))
      \<longrightarrow> (\<exists>line. handle_request data addr sock lang_code now send_ok = ([Print line], None)))"
  by (auto simp add: validate_field_def handle_request_def Let_def)

theorem request_validation_order_witness:
  "length bad_magic_datagram = 6
   \<and> from_bytes_big (py_slice bad_magic_datagram 0 2) \<noteq> MAGIC_NO
   \<and> from_bytes_big (py_slice bad_magic_datagram 2 4) \<noteq> DT_REQUEST
   \<and> from_bytes_big (py_slice bad_magic_datagram 4 6) \<notin> {1, 2}
   \<and> handle_request bad_magic_datagram example_addr 7 1 example_now True
       = ([Print (ustr ''ERROR: Packet magic number is incorrect, dropping packet'')], None)"
proof -
  let ?m = "from_bytes_big (py_slice bad_magic_datagram 0 2)"
  let ?p = "from_bytes_big (py_slice bad_magic_datagram 2 4)"
  let ?r = "from_bytes_big (py_slice bad_magic_datagram 4 6)"
  have f: "?m \<noteq> MAGIC_NO" "?p \<noteq> DT_REQUEST" "?r \<notin> {1, 2}"
    "length bad_magic_datagram = 6"
    by (simp_all add: bad_magic_datagram_def py_slice_def from_bytes_big_def MAGIC_NO_def
        DT_REQUEST_def)
  from request_validation_order [of ?m ?p ?r bad_magic_datagram example_addr 7 1 example_now True] f
  have v: "validate_field ?m ?p ?r
        = ([Print (ustr ''ERROR: Packet magic number is incorrect, dropping packet'')], False)"
    by blast
  have "handle_request bad_magic_datagram example_addr 7 1 example_now True
       = ([Print (ustr ''ERROR: Packet magic number is incorrect, dropping packet'')], None)"
    using f(4) v by (simp add: handle_request_def Let_def)
  with f show ?thesis by simp
qed

text \<open>
  C5.  A datagram whose length is not 6 makes the handler print one line and return,
  without sending and without raising, whatever its length and content are (the fields
  are read with slices, which never raise).
\<close>

theorem wrong_length_dropped:
  assumes "length data \<noteq> 6"
  shows "handle_request data addr sock lang_code now send_ok
           = ([Print (ustr ''ERROR: Packet length incorrect for a DT_Request, dropping packet'')],
              None)"
  using assms by (simp add: handle_request_def Let_def)

theorem wrong_length_dropped_witness:
  "length short_datagram \<noteq> 6
   \<and> handle_request short_datagram example_addr 7 1 example_now True
       = ([Print (ustr ''ERROR: Packet length incorrect for a DT_Request, dropping packet'')],
          None)"
proof -
  have l: "length short_datagram \<noteq> 6" by (simp add: short_datagram_def)
  from wrong_length_dropped [OF l] l show ?thesis by simp
qed

text \<open>
  C9.  For both request types the requester builds the six bytes 36 FB 00 01 00 rt,
  which pass the responder's length check and all three checks of \<open>validate_field\<close>.
\<close>

theorem client_request_accepted:
  assumes "request_type \<in> {1, 2}"
  shows "\<exists>request. build_request request_type = Inr request
           \<and> request = [0x36, 0xFB, 0, 1, 0, word_of_int request_type]
           \<and> length request = 6
           \<and> from_bytes_big (py_slice request 0 2) = MAGIC_NO
           \<and> from_bytes_big (py_slice request 2 4) = DT_REQUEST
           \<and> from_bytes_big (py_slice request 4 6) = request_type
           \<and> validate_field (from_bytes_big (py_slice request 0 2))
                (from_bytes_big (py_slice request 2 4))
                (from_bytes_big (py_slice request 4 6)) = ([], True)"
  using assms
  by (auto simp add: build_request_def to_bytes2_def raise_bind_def MAGIC_NO_def
      PACKET_TYPE_def DT_REQUEST_def bytearray_def set_slice_def py_slice_def
      from_bytes_big_def validate_field_def)

theorem client_request_accepted_witness:
  "(2::int) \<in> {1, 2}
   \<and> build_request 2 = Inr [0x36, 0xFB, 0, 1, 0, 2]
   \<and> validate_field (from_bytes_big (py_slice [0x36, 0xFB, 0, 1, 0, 2] 0 2))
        (from_bytes_big (py_slice [0x36, 0xFB, 0, 1, 0, 2] 2 4))
        (from_bytes_big (py_slice [0x36, 0xFB, 0, 1, 0, 2] 4 6)) = ([], True)"
proof -
  have m: "(2::int) \<in> {1, 2}" by simp
  from client_request_accepted [OF m] show ?thesis by auto
qed

section \<open>The response codec\<close>

lemma bytearray_13: "bytearray (13 + n) = [0,0,0,0,0,0,0,0,0,0,0,0,0] @ replicate n 0"
  by (simp add: bytearray_def replicate_add eval_nat_numeral)

lemma header_slices:
  "set_slice (set_slice (set_slice (set_slice
       ([z0, z1, z2, z3, z4, z5, z6, z7, z8, z9, z10, z11, z12] @ r)
       0 2 [a, b]) 2 4 [c, d]) 4 6 [e, f]) 6 8 [g, h]
   = [a, b, c, d, e, f, g, h, z8, z9, z10, z11, z12] @ r"
  by (simp add: set_slice_def)

lemma header_items:
  assumes "0 \<le> mo" "mo < 256" "0 \<le> da" "da < 256" "0 \<le> ho" "ho < 256"
    "0 \<le> mi" "mi < 256" "0 \<le> n" "n < 256"
  shows
  "raise_bind (set_item ([a, b, c, d, e, f, g, h, z8, z9, z10, z11, z12] @ r) 8 mo) (\<lambda>b8.
   raise_bind (set_item b8 9 da) (\<lambda>b9.
   raise_bind (set_item b9 10 ho) (\<lambda>b10.
   raise_bind (set_item b10 11 mi) (\<lambda>b11.
   raise_bind (set_item b11 12 n) (\<lambda>b12.
     Inr (set_slice_from b12 13 t))))))
   = Inr ([a, b, c, d, e, f, g, h, word_of_int mo, word_of_int da, word_of_int ho,
           word_of_int mi, word_of_int n] @ t)"
  using assms by (simp add: set_item_def raise_bind_def set_slice_from_def)

lemma fill_packet_fields_eq:
  assumes "0 \<le> LangCode" "LangCode < 65536"
    and "0 \<le> dt_year Dt" "dt_year Dt < 65536"
    and "0 \<le> dt_month Dt" "dt_month Dt < 256"
    and "0 \<le> dt_day Dt" "dt_day Dt < 256"
    and "0 \<le> dt_hour Dt" "dt_hour Dt < 256"
    and "0 \<le> dt_minute Dt" "dt_minute Dt < 256"
    and "length TextByte \<le> 255"
  shows "fill_packet_fields (bytearray (13 + n)) LangCode Dt TextByte =
           Inr ([0x36, 0xFB, 0, 2,
                 word_of_int (LangCode div 256), word_of_int (LangCode mod 256),
                 word_of_int (dt_year Dt div 256), word_of_int (dt_year Dt mod 256),
                 word_of_int (dt_month Dt), word_of_int (dt_day Dt),
                 word_of_int (dt_hour Dt), word_of_int (dt_minute Dt),
                 word_of_int (int (length TextByte))] @ TextByte)"
proof -
  have m: "to_bytes2 MAGIC_NO = Inr [0x36, 0xFB]" "to_bytes2 DT_RESPONSE = Inr [0, 2]"
    by (simp_all add: to_bytes2_def MAGIC_NO_def DT_RESPONSE_def)
  have l: "to_bytes2 LangCode = Inr [word_of_int (LangCode div 256), word_of_int (LangCode mod 256)]"
    "to_bytes2 (dt_year Dt) = Inr [word_of_int (dt_year Dt div 256), word_of_int (dt_year Dt mod 256)]"
    using assms by (simp_all add: to_bytes2_def)
  have n: "0 \<le> int (length TextByte)" "int (length TextByte) < 256"
    using assms by simp_all
  show ?thesis
    unfolding fill_packet_fields_def m l bytearray_13
    apply (simp only: raise_bind_def sum.case header_slices)
    apply (fold raise_bind_def)
    apply (rule header_items)
    using assms n by simp_all
qed

lemma uint_byte: "0 \<le> k \<Longrightarrow> k < 256 \<Longrightarrow> uint (word_of_int k :: byte) = k"
  by (simp add: uint_word_of_int)

lemma unat_byte: "n < 256 \<Longrightarrow> unat (of_nat n :: byte) = n"
  by (simp add: unat_of_nat)

lemma from_to_bytes2:
  assumes "0 \<le> n" "n < 65536"
  shows "from_bytes_big [word_of_int (n div 256), word_of_int (n mod 256)] = n"
proof -
  have h: "0 \<le> n div 256" "n div 256 < 256" using assms by simp_all
  have l: "0 \<le> n mod 256" "n mod 256 < 256" by simp_all
  show ?thesis
    by (simp add: from_bytes_big_def uint_byte [OF h] uint_byte [OF l])
qed

lemma split3: "(c::nat) = c div 4096 * 4096 + (c div 64 mod 64) * 64 + c mod 64"
proof -
  define q where "q = c div 64 div 64"
  define m where "m = c div 64 mod 64"
  define l where "l = c mod 64"
  define r where "r = c div 64"
  have a: "c div 4096 = q" unfolding q_def by (simp add: div_mult2_eq)
  have b: "r = q * 64 + m" unfolding q_def m_def r_def by simp
  have d: "c = r * 64 + l" unfolding r_def l_def by simp
  have "c = q * 4096 + m * 64 + l" using b d by simp
  then show ?thesis unfolding a m_def l_def .
qed

lemma split4:
  "(c::nat) = c div 262144 * 262144 + (c div 4096 mod 64) * 4096 + (c div 64 mod 64) * 64
              + c mod 64"
proof -
  define g where "g = c div 4096 div 64"
  define h where "h = c div 4096 mod 64"
  define r where "r = c div 4096"
  have a: "c div 262144 = g" unfolding g_def by (simp add: div_mult2_eq)
  have b: "r = g * 64 + h" unfolding g_def h_def r_def by simp
  have d: "c = r * 4096 + (c div 64 mod 64) * 64 + c mod 64" unfolding r_def by (rule split3)
  have "c = g * 262144 + h * 4096 + (c div 64 mod 64) * 64 + c mod 64" using b d by simp
  then show ?thesis unfolding a h_def .
qed

lemma dec1: "c < 128 \<Longrightarrow> utf8_dec ([c] @ rest) = map_option (Cons c) (utf8_dec rest)"
  by simp

lemma dec2_digits:
  assumes "2 \<le> h" "h < 32" "l < 64"
  shows "utf8_dec ([192 + h, 128 + l] @ rest) = map_option (Cons (h * 64 + l)) (utf8_dec rest)"
  using assms by (simp add: is_cont_def)

lemma dec3_digits:
  assumes "h < 16" "m < 64" "l < 64" "h = 0 \<Longrightarrow> 32 \<le> m" "h = 13 \<Longrightarrow> m < 32"
  shows "utf8_dec ([224 + h, 128 + m, 128 + l] @ rest)
         = map_option (Cons (h * 4096 + m * 64 + l)) (utf8_dec rest)"
  using assms by (simp add: is_cont_def)

lemma dec4_digits:
  assumes "g < 5" "h < 64" "m < 64" "l < 64" "g = 0 \<Longrightarrow> 16 \<le> h" "g = 4 \<Longrightarrow> h < 16"
  shows "utf8_dec ([240 + g, 128 + h, 128 + m, 128 + l] @ rest)
         = map_option (Cons (g * 262144 + h * 4096 + m * 64 + l)) (utf8_dec rest)"
  using assms by (simp add: is_cont_def)

lemma dec_enc2:
  assumes "128 \<le> c" "c < 2048"
  shows "utf8_dec ([192 + c div 64, 128 + c mod 64] @ rest) = map_option (Cons c) (utf8_dec rest)"
proof -
  have a: "2 \<le> c div 64" "c div 64 < 32" using assms by simp_all
  have b: "c mod 64 < 64" by simp
  have e: "c div 64 * 64 + c mod 64 = c" by simp
  from dec2_digits [OF a b, of rest] e show ?thesis by simp
qed

lemma dec_enc3:
  assumes "2048 \<le> c" "c < 65536" "\<not> (55296 \<le> c \<and> c < 57344)"
  shows "utf8_dec ([224 + c div 4096, 128 + (c div 64) mod 64, 128 + c mod 64] @ rest)
         = map_option (Cons c) (utf8_dec rest)"
proof -
  define h where "h = c div 4096"
  define m where "m = (c div 64) mod 64"
  define l where "l = c mod 64"
  have c: "c = h * 4096 + m * 64 + l" unfolding h_def m_def l_def by (rule split3)
  have mb: "m < 64" unfolding m_def by simp
  have lb: "l < 64" unfolding l_def by simp
  have hb: "h < 16" using assms(2) c by linarith
  have h0: "h = 0 \<Longrightarrow> 32 \<le> m" using assms(1) c lb by linarith
  have sur: "c < 55296 \<or> 57344 \<le> c" using assms(3) by auto
  have h13: "m < 32" if "h = 13"
  proof -
    have "c = 53248 + m * 64 + l" using c that by simp
    then show ?thesis using sur mb lb by linarith
  qed
  have "utf8_dec ([224 + h, 128 + m, 128 + l] @ rest)
          = map_option (Cons (h * 4096 + m * 64 + l)) (utf8_dec rest)"
    using hb mb lb h0 h13 by (rule dec3_digits)
  then show ?thesis unfolding c[symmetric] unfolding h_def m_def l_def .
qed

lemma dec_enc4:
  assumes "65536 \<le> c" "c < 1114112"
  shows "utf8_dec ([240 + c div 262144, 128 + (c div 4096) mod 64, 128 + (c div 64) mod 64,
                    128 + c mod 64] @ rest)
         = map_option (Cons c) (utf8_dec rest)"
proof -
  define g where "g = c div 262144"
  define h where "h = (c div 4096) mod 64"
  define m where "m = (c div 64) mod 64"
  define l where "l = c mod 64"
  have c: "c = g * 262144 + h * 4096 + m * 64 + l"
    unfolding g_def h_def m_def l_def by (rule split4)
  have hb: "h < 64" unfolding h_def by simp
  have mb: "m < 64" unfolding m_def by simp
  have lb: "l < 64" unfolding l_def by simp
  have gb: "g < 5" using assms(2) c by linarith
  have g0: "g = 0 \<Longrightarrow> 16 \<le> h" using assms(1) c lb mb by linarith
  have g4: "g = 4 \<Longrightarrow> h < 16" using assms(2) c by linarith
  have "utf8_dec ([240 + g, 128 + h, 128 + m, 128 + l] @ rest)
          = map_option (Cons (g * 262144 + h * 4096 + m * 64 + l)) (utf8_dec rest)"
    using gb hb mb lb g0 g4 by (rule dec4_digits)
  then show ?thesis unfolding c[symmetric] unfolding g_def h_def m_def l_def .
qed

lemma dec_enc_cp:
  assumes "is_scalar c"
  shows "utf8_dec (enc_cp c @ rest) = map_option (Cons c) (utf8_dec rest)"
proof -
  consider (one) "c < 128" | (two) "128 \<le> c" "c < 2048"
    | (three) "2048 \<le> c" "c < 65536" | (four) "65536 \<le> c"
    by linarith
  then show ?thesis
  proof cases
    case one
    then show ?thesis using dec1 [of c rest] by (simp add: enc_cp_def)
  next
    case two
    then show ?thesis using dec_enc2 [of c rest] by (simp add: enc_cp_def)
  next
    case three
    then show ?thesis using dec_enc3 [of c rest] assms
      by (simp add: enc_cp_def is_scalar_def)
  next
    case four
    then show ?thesis using dec_enc4 [of c rest] assms
      by (simp add: enc_cp_def is_scalar_def)
  qed
qed

lemma enc_cp_byte:
  assumes "is_scalar c" "b \<in> set (enc_cp c)"
  shows "b < 256"
proof -
  have m: "x mod 64 < 64" for x :: nat by simp
  have "c < 1114112" using assms(1) by (simp add: is_scalar_def)
  then have d: "c div 262144 < 5" "c < 65536 \<Longrightarrow> c div 4096 < 16" "c < 2048 \<Longrightarrow> c div 64 < 32"
    by simp_all
  show ?thesis
    using assms(2) d m [of c] m [of "c div 64"] m [of "c div 4096"]
    by (auto simp add: enc_cp_def split: if_splits)
qed

lemma enc_cp_length: "length (enc_cp c) \<le> 4"
  by (simp add: enc_cp_def)

lemma utf8_dec_concat:
  assumes "list_all is_scalar s"
  shows "utf8_dec (concat (map enc_cp s) @ rest) = map_option ((@) s) (utf8_dec rest)"
  using assms
proof (induction s)
  case Nil
  show ?case by (simp add: option.map_ident)
next
  case (Cons c s)
  then show ?case
    by (simp add: dec_enc_cp option.map_comp comp_def)
qed

lemma utf8_roundtrip:
  assumes "utf8_encode s = Inr bs"
  shows "utf8_decode bs = Inr s"
proof -
  from assms have sc: "list_all is_scalar s" and bs: "bs = map of_nat (concat (map enc_cp s))"
    by (auto simp add: utf8_encode_def split: if_splits)
  have "\<forall>b \<in> set (concat (map enc_cp s)). b < 256"
    using sc enc_cp_byte by (auto simp add: list_all_iff)
  then have "map (\<lambda>b. unat (of_nat b :: byte)) (concat (map enc_cp s))
               = concat (map enc_cp s)"
    by (intro map_idI) (auto intro: unat_byte)
  then have "map unat bs = concat (map enc_cp s)"
    unfolding bs by (simp add: comp_def)
  moreover have "utf8_dec (concat (map enc_cp s)) = Some s"
    using utf8_dec_concat [OF sc, of "[]"] by simp
  ultimately show ?thesis by (simp add: utf8_decode_def)
qed

lemma utf8_encode_length:
  assumes "utf8_encode s = Inr bs"
  shows "length bs \<le> 4 * length s"
proof -
  have "length (concat (map enc_cp t)) \<le> 4 * length t" for t
    by (induction t) (use enc_cp_length in \<open>auto simp add: add_le_mono\<close>)
  with assms show ?thesis
    by (auto simp add: utf8_encode_def split: if_splits)
qed

lemma extract_packet:
  assumes "utf8_decode t = Inr text" "unat n = length t"
  shows "extract_response_data ([a, b, c, d, e, f, g, h, mo, da, ho, mi, n] @ t)
         = Inr (from_bytes_big [a, b], from_bytes_big [c, d], from_bytes_big [e, f], text,
                uint n, uint da, uint mo, from_bytes_big [g, h], uint ho, uint mi)"
  using assms
  by (simp add: extract_response_data_def extract_body_13 py_slice_def raise_bind_def)

lemma magic_bytes: "from_bytes_big [0x36, 0xFB] = MAGIC_NO" "from_bytes_big [0, 2] = DT_RESPONSE"
  by (simp_all add: from_bytes_big_def MAGIC_NO_def DT_RESPONSE_def)

lemma print_response_ok:
  assumes "lang_code \<in> {1, 2, 3}"
  shows "\<exists>printed. print_response lang_code text day month year hour minute = Inr printed"
  using assms by (auto simp add: print_response_def lang_str_table_def)

lemma roundtrip_fields:
  assumes "lang_code \<in> {1, 2, 3}"
    and "0 \<le> dt_year dt" "dt_year dt < 65536"
    and "0 \<le> dt_month dt" "dt_month dt < 256"
    and "0 \<le> dt_day dt" "dt_day dt < 256"
    and "0 \<le> dt_hour dt" "dt_hour dt < 256"
    and "0 \<le> dt_minute dt" "dt_minute dt < 256"
    and "utf8_encode text = Inr text_bytes" and "length text_bytes \<le> 255"
    and "fill_packet_fields (bytearray (13 + length text_bytes)) lang_code dt text_bytes
           = Inr response"
  shows "extract_response_data response
           = Inr (MAGIC_NO, DT_RESPONSE, lang_code, text, int (length text_bytes),
                  dt_day dt, dt_month dt, dt_year dt, dt_hour dt, dt_minute dt)"
    and "length response = 13 + length text_bytes"
proof -
  have lc: "0 \<le> lang_code" "lang_code < 65536" using assms(1) by auto
  have n: "0 \<le> int (length text_bytes)" "int (length text_bytes) < 256"
    using assms(13) by simp_all
  let ?n = "word_of_int (int (length text_bytes)) :: byte"
  have r: "response = [0x36, 0xFB, 0, 2,
                 word_of_int (lang_code div 256), word_of_int (lang_code mod 256),
                 word_of_int (dt_year dt div 256), word_of_int (dt_year dt mod 256),
                 word_of_int (dt_month dt), word_of_int (dt_day dt),
                 word_of_int (dt_hour dt), word_of_int (dt_minute dt), ?n] @ text_bytes"
    using fill_packet_fields_eq [OF lc assms(2-11) assms(13), of "length text_bytes"] assms(14)
    by simp
  have u: "uint ?n = int (length text_bytes)" by (rule uint_byte [OF n])
  then have un: "unat ?n = length text_bytes"
    by (metis nat_int unat_eq_nat_uint)
  show "extract_response_data response
           = Inr (MAGIC_NO, DT_RESPONSE, lang_code, text, int (length text_bytes),
                  dt_day dt, dt_month dt, dt_year dt, dt_hour dt, dt_minute dt)"
    unfolding r extract_packet [OF utf8_roundtrip [OF assms(12)] un]
    by (simp only: magic_bytes from_to_bytes2 [OF lc] from_to_bytes2 [OF assms(2,3)] u
        uint_byte [OF assms(4,5)] uint_byte [OF assms(6,7)] uint_byte [OF assms(8,9)]
        uint_byte [OF assms(10,11)])
  show "length response = 13 + length text_bytes"
    unfolding r by simp
qed

text \<open>
  C1.  Round trip of the response codec.  For a language code in 1..3, a year that fits
  in 16 bits, the other date-time fields in one byte each, and a text whose UTF-8
  encoding has at most 255 bytes, \<open>fill_packet_fields\<close> over a buffer of 13 + N bytes
  succeeds, \<open>extract_response_data\<close> gives back the same language code, date-time
  fields and text, the structural pass accepts the packet, and when the date-time fields
  are in the valid ranges the semantic pass accepts it too and the response is printed.
\<close>

theorem response_roundtrip:
  assumes "lang_code \<in> {1, 2, 3}"
    and "0 \<le> dt_year dt" "dt_year dt < 65536"
    and "0 \<le> dt_month dt" "dt_month dt < 256"
    and "0 \<le> dt_day dt" "dt_day dt < 256"
    and "0 \<le> dt_hour dt" "dt_hour dt < 256"
    and "0 \<le> dt_minute dt" "dt_minute dt < 256"
    and "utf8_encode text = Inr text_bytes" and "length text_bytes \<le> 255"
  shows "\<exists>response.
           fill_packet_fields (bytearray (13 + length text_bytes)) lang_code dt text_bytes
             = Inr response
           \<and> extract_response_data response
               = Inr (MAGIC_NO, DT_RESPONSE, lang_code, text, int (length text_bytes),
                      dt_day dt, dt_month dt, dt_year dt, dt_hour dt, dt_minute dt)
           \<and> validate_response_packet_1 response MAGIC_NO DT_RESPONSE lang_code
                (int (length text_bytes)) = Inr True
           \<and> (dt_year dt < 2100 \<and> 1 \<le> dt_month dt \<and> dt_month dt \<le> 12
                \<and> 1 \<le> dt_day dt \<and> dt_day dt \<le> 31 \<and> dt_hour dt \<le> 23 \<and> dt_minute dt \<le> 59
              \<longrightarrow> validate_response_packet_2 (dt_day dt) (dt_month dt) (dt_year dt)
                    (dt_hour dt) (dt_minute dt) = Inr True
                  \<and> (\<exists>printed. process_response response = Inr printed))"
proof -
  have lc: "0 \<le> lang_code" "lang_code < 65536" using assms(1) by auto
  obtain response where
    f: "fill_packet_fields (bytearray (13 + length text_bytes)) lang_code dt text_bytes
          = Inr response"
    using fill_packet_fields_eq [OF lc assms(2-11) assms(13), of "length text_bytes"] by blast
  note x = roundtrip_fields [OF assms f]
  have v1: "validate_response_packet_1 response MAGIC_NO DT_RESPONSE lang_code
                (int (length text_bytes)) = Inr True"
    using assms(1) x(2) by (auto simp add: validate_response_packet_1_def)
  have v2: "validate_response_packet_2 (dt_day dt) (dt_month dt) (dt_year dt)
                    (dt_hour dt) (dt_minute dt) = Inr True
            \<and> (\<exists>printed. process_response response = Inr printed)"
    if ok: "dt_year dt < 2100 \<and> 1 \<le> dt_month dt \<and> dt_month dt \<le> 12
                \<and> 1 \<le> dt_day dt \<and> dt_day dt \<le> 31 \<and> dt_hour dt \<le> 23 \<and> dt_minute dt \<le> 59"
  proof -
    have a: "validate_response_packet_2 (dt_day dt) (dt_month dt) (dt_year dt)
                    (dt_hour dt) (dt_minute dt) = Inr True"
      using ok assms(8,10) by (simp add: validate_2_iff)
    obtain printed where p: "print_response lang_code text (dt_day dt) (dt_month dt)
         (dt_year dt) (dt_hour dt) (dt_minute dt) = Inr printed"
      using print_response_ok [OF assms(1)] by blast
    have "process_response response = Inr printed"
      by (simp add: process_response_def x(1) raise_bind_def v1 a p)
    with a show ?thesis by blast
  qed
  from f x(1) v1 v2 show ?thesis by blast
qed

lemma example_text_bytes: "utf8_encode example_text = Inr [77, 0xC4, 0x81]"
  by (simp add: utf8_encode_def example_text_def is_scalar_def enc_cp_def)

lemma example_fill:
  "fill_packet_fields (bytearray (13 + length [77, 0xC4, 0x81 :: byte])) 2 example_now
     [77, 0xC4, 0x81] = Inr example_response"
  by (subst fill_packet_fields_eq) (simp_all add: example_now_def example_response_def)

theorem response_roundtrip_witness:
  "utf8_encode example_text = Inr [77, 0xC4, 0x81]
   \<and> fill_packet_fields (bytearray (13 + length [77, 0xC4, 0x81 :: byte])) 2 example_now
        [77, 0xC4, 0x81] = Inr example_response
   \<and> extract_response_data example_response
       = Inr (MAGIC_NO, DT_RESPONSE, 2, example_text, 3, 17, 5, 2024, 9, 30)
   \<and> validate_response_packet_1 example_response MAGIC_NO DT_RESPONSE 2 3 = Inr True
   \<and> validate_response_packet_2 17 5 2024 9 30 = Inr True
   \<and> (\<exists>printed. process_response example_response = Inr printed)"
proof -
  have "\<exists>response.
           fill_packet_fields (bytearray (13 + length [77, 0xC4, 0x81 :: byte])) 2 example_now
             [77, 0xC4, 0x81] = Inr response
           \<and> extract_response_data response
               = Inr (MAGIC_NO, DT_RESPONSE, 2, example_text,
                      int (length [77, 0xC4, 0x81 :: byte]),
                      dt_day example_now, dt_month example_now, dt_year example_now,
                      dt_hour example_now, dt_minute example_now)
           \<and> validate_response_packet_1 response MAGIC_NO DT_RESPONSE 2
                (int (length [77, 0xC4, 0x81 :: byte])) = Inr True
           \<and> (dt_year example_now < 2100 \<and> 1 \<le> dt_month example_now
                \<and> dt_month example_now \<le> 12
                \<and> 1 \<le> dt_day example_now \<and> dt_day example_now \<le> 31
                \<and> dt_hour example_now \<le> 23 \<and> dt_minute example_now \<le> 59
              \<longrightarrow> validate_response_packet_2 (dt_day example_now) (dt_month example_now)
                    (dt_year example_now) (dt_hour example_now) (dt_minute example_now)
                    = Inr True
                  \<and> (\<exists>printed. process_response response = Inr printed))"
    by (rule response_roundtrip [OF _ _ _ _ _ _ _ _ _ _ _ example_text_bytes])
       (simp_all add: example_now_def)
  then show ?thesis
    using example_text_bytes example_fill by (auto simp add: example_now_def)
qed

section \<open>Formatted texts\<close>

lemma decimal_digit: "n < 10 \<Longrightarrow> decimal n = [48 + n]"
  by (simp add: decimal.simps)

lemma decimal_step: "10 \<le> n \<Longrightarrow> decimal n = decimal (n div 10) @ [48 + n mod 10]"
  by (subst decimal.simps) simp

lemma decimal_length_2: "n < 100 \<Longrightarrow> length (decimal n) \<le> 2"
  by (cases "n < 10") (simp_all add: decimal_digit decimal_step)

lemma decimal_length_4: 
  assumes "n < 10000"
  shows "length (decimal n) \<le> 4"
proof (cases "n < 100")
  case True
  then show ?thesis using decimal_length_2 [of n] by simp
next
  case False
  then have a: "10 \<le> n" "10 \<le> n div 10" "n div 10 div 10 < 100" using assms by simp_all
  then show ?thesis
    using decimal_length_2 [of "n div 10 div 10"] by (simp add: decimal_step)
qed

lemma decimal_scalar: "list_all is_scalar (decimal n)"
proof (induction n rule: decimal.induct)
  case (1 n)
  have d: "is_scalar (48 + n mod 10)"
    by (simp add: is_scalar_def) linarith
  show ?case
  proof (cases "n < 10")
    case True
    then show ?thesis by (simp add: decimal_digit is_scalar_def)
  next
    case False
    then show ?thesis using 1 d by (simp add: decimal_step)
  qed
qed

lemma py_str_ok:
  assumes "0 \<le> n" "n < 10000"
  shows "length (py_str n) \<le> 4" "list_all is_scalar (py_str n)"
  using assms decimal_length_4 [of "nat n"] decimal_scalar [of "nat n"]
  by (simp_all add: py_str_def)

lemma py_str_ok_2:
  assumes "0 \<le> n" "n < 100"
  shows "length (py_str n) \<le> 2"
  using assms decimal_length_2 [of "nat n"]
  by (simp add: py_str_def)

lemma py_format_02_ok:
  assumes "0 \<le> n" "n < 100"
  shows "length (py_format_02 n) \<le> 2" "list_all is_scalar (py_format_02 n)"
  using assms decimal_length_2 [of "nat n"] decimal_scalar [of "nat n"]
  by (auto simp add: py_format_02_def Let_def is_scalar_def list_all_iff)

lemma lang_distinct: "English \<noteq> Maori" "English \<noteq> German" "Maori \<noteq> German"
  by (simp_all add: English_def Maori_def German_def ustr_def)

lemma MONTHS_lookup:
  "MONTHS English = Some MONTHS_English" "MONTHS Maori = Some MONTHS_Maori"
  "MONTHS German = Some MONTHS_German"
  using lang_distinct by (simp_all add: MONTHS_def)

lemma LANGUAGE_CODES_lookup:
  "LANGUAGE_CODES 1 = Some English" "LANGUAGE_CODES 2 = Some Maori"
  "LANGUAGE_CODES 3 = Some German"
  by (simp_all add: LANGUAGE_CODES_def)

lemma months_ok:
  "length MONTHS_English = 12" "list_all (\<lambda>m. length m \<le> 16 \<and> list_all is_scalar m) MONTHS_English"
  "length MONTHS_Maori = 12" "list_all (\<lambda>m. length m \<le> 16 \<and> list_all is_scalar m) MONTHS_Maori"
  "length MONTHS_German = 12" "list_all (\<lambda>m. length m \<le> 16 \<and> list_all is_scalar m) MONTHS_German"
  by (simp_all add: MONTHS_English_def MONTHS_Maori_def MONTHS_German_def
      ustr_def is_scalar_def)

lemma month_name_ok:
  assumes "1 \<le> dt_month now" "dt_month now \<le> 12"
    and "lang \<in> {English, Maori, German}"
  shows "\<exists>m. month_name lang now = Inr m \<and> length m \<le> 16 \<and> list_all is_scalar m"
proof -
  have g: "\<exists>m. py_getitem names (dt_month now - 1) = Inr m \<and> length m \<le> 16 \<and> list_all is_scalar m"
    if "length names = 12" "list_all (\<lambda>m. length m \<le> 16 \<and> list_all is_scalar m) names" for names
  proof -
    have "nat (dt_month now - 1) < length names" using assms(1,2) that(1) by simp
    then have "length (names ! nat (dt_month now - 1)) \<le> 16 \<and> list_all is_scalar (names ! nat (dt_month now - 1))"
      using that(2) by (simp add: list_all_length)
    then show ?thesis using assms(1,2) that(1) by (simp add: py_getitem_def)
  qed
  from assms(3) consider "lang = English" | "lang = Maori" | "lang = German" by blast
  then show ?thesis
  proof cases
    case 1
    then show ?thesis using g [OF months_ok(1,2)] by (simp add: month_name_def MONTHS_lookup)
  next
    case 2
    then show ?thesis using g [OF months_ok(3,4)] by (simp add: month_name_def MONTHS_lookup)
  next
    case 3
    then show ?thesis using g [OF months_ok(5,6)] by (simp add: month_name_def MONTHS_lookup)
  qed
qed

lemma format_date_ok:
  assumes "valid_datetime now" and "lang \<in> {English, Maori, German}"
  shows "\<exists>text. format_date now lang = Inr (Some text) \<and> length text \<le> 48
           \<and> list_all is_scalar text"
proof -
  from assms(1) have v: "1 \<le> dt_month now" "dt_month now \<le> 12"
    "0 \<le> dt_day now" "dt_day now < 100" "0 \<le> dt_year now" "dt_year now < 10000"
    by (simp_all add: valid_datetime_def)
  obtain m where m: "month_name lang now = Inr m" "length m \<le> 16" "list_all is_scalar m"
    using month_name_ok [OF v(1,2) assms(2)] by auto
  note d = py_str_ok_2 [OF v(3,4)] py_str_ok(2) [OF v(3)] py_str_ok [OF v(5,6)]
  from assms(2) consider "lang = English" | "lang = Maori" | "lang = German" by blast
  then show ?thesis
  proof cases
    case 1
    then show ?thesis using m d v(4)
      by (simp add: format_date_def raise_bind_def ustr_def is_scalar_def)
  next
    case 2
    then show ?thesis using m d v(4) lang_distinct
      by (simp add: format_date_def raise_bind_def ustr_def is_scalar_def)
  next
    case 3
    then show ?thesis using m d v(4) lang_distinct
      by (simp add: format_date_def raise_bind_def ustr_def is_scalar_def)
  qed
qed

lemma format_time_ok:
  assumes "valid_datetime now" and "lang \<in> {English, Maori, German}"
  shows "\<exists>text. format_time now lang = Inr (Some text) \<and> length text \<le> 48
           \<and> list_all is_scalar text"
proof -
  from assms(1) have v: "0 \<le> dt_hour now" "dt_hour now < 100"
    "0 \<le> dt_minute now" "dt_minute now < 100"
    by (simp_all add: valid_datetime_def)
  note d = py_format_02_ok [OF v(1,2)] py_format_02_ok [OF v(3,4)]
  from assms(2) consider "lang = English" | "lang = Maori" | "lang = German" by blast
  then show ?thesis
  proof cases
    case 1
    then show ?thesis using d
      by (simp add: format_time_def ustr_def is_scalar_def)
  next
    case 2
    then show ?thesis using d lang_distinct
      by (simp add: format_time_def ustr_def is_scalar_def)
  next
    case 3
    then show ?thesis using d lang_distinct
      by (simp add: format_time_def ustr_def is_scalar_def)
  qed
qed

section \<open>Sending the response\<close>

lemma header_fields:
  assumes "0 \<le> lang_code" "lang_code < 65536"
    and "0 \<le> dt_year dt" "dt_year dt < 65536"
    and "0 \<le> dt_month dt" "dt_month dt < 256"
    and "0 \<le> dt_day dt" "dt_day dt < 256"
    and "0 \<le> dt_hour dt" "dt_hour dt < 256"
    and "0 \<le> dt_minute dt" "dt_minute dt < 256"
    and "length text_bytes \<le> 255"
    and "fill_packet_fields (bytearray (13 + length text_bytes)) lang_code dt text_bytes
           = Inr response"
  shows "from_bytes_big (py_slice response 0 2) = MAGIC_NO"
    and "from_bytes_big (py_slice response 2 4) = DT_RESPONSE"
    and "from_bytes_big (py_slice response 4 6) = lang_code"
    and "length response = 13 + length text_bytes"
    and "unat (response ! 12) = length text_bytes"
    and "drop 13 response = text_bytes"
proof -
  have n: "0 \<le> int (length text_bytes)" "int (length text_bytes) < 256"
    using assms(13) by simp_all
  let ?n = "word_of_int (int (length text_bytes)) :: byte"
  have r: "response = [0x36, 0xFB, 0, 2,
                 word_of_int (lang_code div 256), word_of_int (lang_code mod 256),
                 word_of_int (dt_year dt div 256), word_of_int (dt_year dt mod 256),
                 word_of_int (dt_month dt), word_of_int (dt_day dt),
                 word_of_int (dt_hour dt), word_of_int (dt_minute dt), ?n] @ text_bytes"
    using fill_packet_fields_eq [OF assms(1-13), of "length text_bytes"] assms(14)
    by simp
  have "uint ?n = int (length text_bytes)" by (rule uint_byte [OF n])
  then have un: "unat ?n = length text_bytes"
    by (metis nat_int unat_eq_nat_uint)
  show "from_bytes_big (py_slice response 0 2) = MAGIC_NO"
    "from_bytes_big (py_slice response 2 4) = DT_RESPONSE"
    unfolding r by (simp_all add: py_slice_def magic_bytes)
  show "from_bytes_big (py_slice response 4 6) = lang_code"
    unfolding r by (simp add: py_slice_def from_to_bytes2 [OF assms(1,2)])
  show "length response = 13 + length text_bytes" "drop 13 response = text_bytes"
    unfolding r by simp_all
  show "unat (response ! 12) = length text_bytes"
    unfolding r using un by simp
qed

lemma utf8_encode_ascii:
  assumes "\<forall>c \<in> set s. c < 128"
  shows "utf8_encode s = Inr (map of_nat s)"
proof -
  have "concat (map enc_cp s) = s" using assms
    by (induction s) (simp_all add: enc_cp_def)
  moreover have "list_all is_scalar s" using assms
    by (auto simp add: list_all_iff is_scalar_def)
  ultimately show ?thesis by (simp add: utf8_encode_def)
qed

lemma handle_request_valid:
  assumes "length data = 6"
    and "validate_field (from_bytes_big (py_slice data 0 2))
           (from_bytes_big (py_slice data 2 4)) (from_bytes_big (py_slice data 4 6))
         = ([], True)"
    and "LANGUAGE_CODES lang_code = Some lang"
    and "(if from_bytes_big (py_slice data 4 6) = 1 then format_date now lang
          else format_time now lang) = Inr formatted"
  shows "handle_request data addr sock lang_code now send_ok =
           (Print (lang @ (if from_bytes_big (py_slice data 4 6) = 1
                           then ustr '' received date request from ''
                           else ustr '' received time request from '') @ fst addr)
              # fst (send_text formatted addr sock lang_code now send_ok),
            snd (send_text formatted addr sock lang_code now send_ok))"
  using assms
  by (simp add: handle_request_def Let_def split: prod.splits if_splits)

text \<open>
  C7.  The part of \<open>handle_request\<close> after the text is formatted, for any text that
  has a UTF-8 encoding.  When the encoding is longer than 255 bytes the handler prints one
  line and returns: nothing is sent, nothing is raised.  Otherwise the datagram sent has
  13 bytes plus the encoded text, and its Length byte is the number of text bytes.  The
  third part says that \<open>handle_request\<close> passes the formatter's text to this code for
  every valid request.
\<close>

theorem text_length_gate:
  "(utf8_encode text = Inr text_bytes \<and> 255 < length text_bytes \<longrightarrow>
      send_text (Some text) addr sock lang_code dt send_ok
        = ([Print (ustr ''ERROR: Text too long, dropping packet'')], None))
   \<and> (utf8_encode text = Inr text_bytes \<and> length text_bytes \<le> 255
       \<and> 0 \<le> lang_code \<and> lang_code < 65536 \<and> 0 \<le> dt_year dt \<and> dt_year dt < 65536
       \<and> 0 \<le> dt_month dt \<and> dt_month dt < 256 \<and> 0 \<le> dt_day dt \<and> dt_day dt < 256
       \<and> 0 \<le> dt_hour dt \<and> dt_hour dt < 256 \<and> 0 \<le> dt_minute dt \<and> dt_minute dt < 256
      \<longrightarrow> (\<exists>response.
             send_text (Some text) addr sock lang_code dt True
               = ([SendTo sock response addr, Print (ustr ''Response sent'')], None)
             \<and> length response = 13 + length text_bytes
             \<and> unat (response ! 12) = length text_bytes
             \<and> drop 13 response = text_bytes))
   \<and> (length data = 6
       \<and> validate_field (from_bytes_big (py_slice data 0 2))
           (from_bytes_big (py_slice data 2 4)) (from_bytes_big (py_slice data 4 6))
         = ([], True)
       \<and> LANGUAGE_CODES lang_code = Some lang
       \<and> (if from_bytes_big (py_slice data 4 6) = 1 then format_date dt lang
           else format_time dt lang) = Inr formatted
      \<longrightarrow> handle_request data addr sock lang_code dt send_ok =
           (Print (lang @ (if from_bytes_big (py_slice data 4 6) = 1
                           then ustr '' received date request from ''
                           else ustr '' received time request from '') @ fst addr)
              # fst (send_text formatted addr sock lang_code dt send_ok),
            snd (send_text formatted addr sock lang_code dt send_ok)))"
proof (intro conjI impI)
  assume "utf8_encode text = Inr text_bytes \<and> 255 < length text_bytes"
  then show "send_text (Some text) addr sock lang_code dt send_ok
        = ([Print (ustr ''ERROR: Text too long, dropping packet'')], None)"
    by (simp add: send_text_def)
next
  assume a: "utf8_encode text = Inr text_bytes \<and> length text_bytes \<le> 255
       \<and> 0 \<le> lang_code \<and> lang_code < 65536 \<and> 0 \<le> dt_year dt \<and> dt_year dt < 65536
       \<and> 0 \<le> dt_month dt \<and> dt_month dt < 256 \<and> 0 \<le> dt_day dt \<and> dt_day dt < 256
       \<and> 0 \<le> dt_hour dt \<and> dt_hour dt < 256 \<and> 0 \<le> dt_minute dt \<and> dt_minute dt < 256"
  then have b: "0 \<le> lang_code" "lang_code < 65536" "0 \<le> dt_year dt" "dt_year dt < 65536"
    "0 \<le> dt_month dt" "dt_month dt < 256" "0 \<le> dt_day dt" "dt_day dt < 256"
    "0 \<le> dt_hour dt" "dt_hour dt < 256" "0 \<le> dt_minute dt" "dt_minute dt < 256"
    "length text_bytes \<le> 255"
    by simp_all
  obtain response where
    f: "fill_packet_fields (bytearray (13 + length text_bytes)) lang_code dt text_bytes
          = Inr response"
    using fill_packet_fields_eq [OF b, of "length text_bytes"] by blast
  have "send_text (Some text) addr sock lang_code dt True
               = ([SendTo sock response addr, Print (ustr ''Response sent'')], None)"
    using a f by (simp add: send_text_def)
  with header_fields(4-6) [OF b f]
  show "\<exists>response.
             send_text (Some text) addr sock lang_code dt True
               = ([SendTo sock response addr, Print (ustr ''Response sent'')], None)
             \<and> length response = 13 + length text_bytes
             \<and> unat (response ! 12) = length text_bytes
             \<and> drop 13 response = text_bytes"
    by blast
next
  assume "length data = 6
       \<and> validate_field (from_bytes_big (py_slice data 0 2))
           (from_bytes_big (py_slice data 2 4)) (from_bytes_big (py_slice data 4 6))
         = ([], True)
       \<and> LANGUAGE_CODES lang_code = Some lang
       \<and> (if from_bytes_big (py_slice data 4 6) = 1 then format_date dt lang
           else format_time dt lang) = Inr formatted"
  then show "handle_request data addr sock lang_code dt send_ok =
           (Print (lang @ (if from_bytes_big (py_slice data 4 6) = 1
                           then ustr '' received date request from ''
                           else ustr '' received time request from '') @ fst addr)
              # fst (send_text formatted addr sock lang_code dt send_ok),
            snd (send_text formatted addr sock lang_code dt send_ok))"
    using handle_request_valid [of data lang_code lang dt formatted addr sock send_ok]
    by blast
qed

lemma long_text_bytes: "utf8_encode long_text = Inr (replicate 256 97)"
  using utf8_encode_ascii [of long_text] by (simp add: long_text_def)

theorem text_length_gate_witness:
  "utf8_encode long_text = Inr (replicate 256 97)
   \<and> 255 < length (replicate 256 (97 :: byte))
   \<and> send_text (Some long_text) example_addr 7 2 example_now True
       = ([Print (ustr ''ERROR: Text too long, dropping packet'')], None)
   \<and> utf8_encode example_text = Inr [77, 0xC4, 0x81]
   \<and> send_text (Some example_text) example_addr 7 2 example_now True
       = ([SendTo 7 example_response example_addr, Print (ustr ''Response sent'')], None)
   \<and> length example_response = 13 + 3
   \<and> unat (example_response ! 12) = 3"
proof -
  have l: "255 < length (replicate 256 (97 :: byte))" by simp
  have a: "send_text (Some long_text) example_addr 7 2 example_now True
       = ([Print (ustr ''ERROR: Text too long, dropping packet'')], None)"
    using text_length_gate [of long_text "replicate 256 97" example_addr 7 2 example_now True]
      long_text_bytes l by blast
  have b: "send_text (Some example_text) example_addr 7 2 example_now True
       = ([SendTo 7 example_response example_addr, Print (ustr ''Response sent'')], None)"
    using example_fill by (simp add: send_text_def example_text_bytes)
  have c: "length example_response = 13 + 3" "unat (example_response ! 12) = 3"
    by (simp_all add: example_response_def)
  from long_text_bytes l a example_text_bytes b c show ?thesis by simp
qed

section \<open>Dispatch by socket\<close>

lemma valid_datetime_bounds:
  assumes "valid_datetime now"
  shows "0 \<le> dt_year now" "dt_year now < 65536"
    "0 \<le> dt_month now" "dt_month now < 256" "0 \<le> dt_day now" "dt_day now < 256"
    "0 \<le> dt_hour now" "dt_hour now < 256" "0 \<le> dt_minute now" "dt_minute now < 256"
  using assms by (simp_all add: valid_datetime_def)

lemma formatted_ok:
  assumes "valid_datetime now" and "lang \<in> {English, Maori, German}"
  shows "\<exists>text. (if request_type = (1::int) then format_date now lang
                  else format_time now lang) = Inr (Some text)
           \<and> length text \<le> 48 \<and> list_all is_scalar text"
  using format_date_ok [OF assms] format_time_ok [OF assms] by simp

lemma handle_request_served:
  assumes "valid_datetime now"
    and "length data = 6"
    and "from_bytes_big (py_slice data 0 2) = MAGIC_NO"
    and "from_bytes_big (py_slice data 2 4) = DT_REQUEST"
    and "from_bytes_big (py_slice data 4 6) \<in> {1, 2}"
    and "lang_code \<in> {1, 2, 3}"
    and "LANGUAGE_CODES lang_code = Some lang"
    and "lang \<in> {English, Maori, German}"
  shows "\<exists>text text_bytes response.
           (if from_bytes_big (py_slice data 4 6) = 1 then format_date now lang
            else format_time now lang) = Inr (Some text)
           \<and> utf8_encode text = Inr text_bytes
           \<and> handle_request data addr sock lang_code now True
               = ([Print (lang @ (if from_bytes_big (py_slice data 4 6) = 1
                                  then ustr '' received date request from ''
                                  else ustr '' received time request from '') @ fst addr),
                   SendTo sock response addr, Print (ustr ''Response sent'')], None)
           \<and> from_bytes_big (py_slice response 0 2) = MAGIC_NO
           \<and> from_bytes_big (py_slice response 2 4) = DT_RESPONSE
           \<and> from_bytes_big (py_slice response 4 6) = lang_code
           \<and> drop 13 response = text_bytes
           \<and> extract_response_data response
               = Inr (MAGIC_NO, DT_RESPONSE, lang_code, text, int (length text_bytes),
                      dt_day now, dt_month now, dt_year now, dt_hour now, dt_minute now)"
proof -
  let ?r = "from_bytes_big (py_slice data 4 6)"
  obtain tx where
    t: "(if ?r = 1 then format_date now lang else format_time now lang) = Inr (Some tx)"
      "length tx \<le> 48" "list_all is_scalar tx"
    using formatted_ok [OF assms(1,8)] by blast
  obtain text_bytes where e: "utf8_encode tx = Inr text_bytes"
    using t(3) by (simp add: utf8_encode_def)
  have n: "length text_bytes \<le> 255"
    using utf8_encode_length [OF e] t(2) by simp
  have lc: "0 \<le> lang_code" "lang_code < 65536" using assms(6) by auto
  note b = valid_datetime_bounds [OF assms(1)]
  obtain response where
    f: "fill_packet_fields (bytearray (13 + length text_bytes)) lang_code now text_bytes
          = Inr response"
    using fill_packet_fields_eq [OF lc b n, of "length text_bytes"] by blast
  have s: "send_text (Some tx) addr sock lang_code now True
               = ([SendTo sock response addr, Print (ustr ''Response sent'')], None)"
    using e n f by (simp add: send_text_def)
  have v: "validate_field (from_bytes_big (py_slice data 0 2))
           (from_bytes_big (py_slice data 2 4)) ?r = ([], True)"
    using assms(3-5) by (auto simp add: validate_field_def)
  have h: "handle_request data addr sock lang_code now True
               = ([Print (lang @ (if ?r = 1
                                  then ustr '' received date request from ''
                                  else ustr '' received time request from '') @ fst addr),
                   SendTo sock response addr, Print (ustr ''Response sent'')], None)"
    unfolding handle_request_valid [OF assms(2) v assms(7) t(1)] s by simp
  note hf = header_fields [OF lc b n f]
  note x = roundtrip_fields(1) [OF assms(6) b e n f]
  from t(1) e h hf(1-3) hf(6) x show ?thesis by blast
qed

lemma dispatch_three:
  assumes "distinct [s0, s1, s2]"
  shows "dispatch [s0, s1, s2] s0 data addr now send_ok
           = (handle_request data addr s0 1 now send_ok, False)"
    and "dispatch [s0, s1, s2] s1 data addr now send_ok
           = (handle_request data addr s1 2 now send_ok, False)"
    and "dispatch [s0, s1, s2] s2 data addr now send_ok
           = (handle_request data addr s2 3 now send_ok, False)"
  using assms by (auto simp add: dispatch_def py_getitem_def)

lemma dispatch_index:
  assumes "length sockets = 3" "distinct sockets" "i < 3"
  shows "dispatch sockets (sockets ! i) data addr now send_ok
           = (handle_request data addr (sockets ! i) (int i + 1) now send_ok, False)"
proof -
  obtain s0 s1 s2 where s: "sockets = [s0, s1, s2]"
    using assms(1) by (auto simp add: numeral_3_eq_3 length_Suc_conv)
  have d: "distinct [s0, s1, s2]" using assms(2) s by simp
  from assms(3) consider "i = 0" | "i = 1" | "i = 2" by linarith
  then show ?thesis
    by cases (simp_all add: s dispatch_three [OF d])
qed

lemma language_of_socket:
  assumes "i < 3"
  shows "LANGUAGE_CODES (int i + 1) = Some ([English, Maori, German] ! i)"
    and "[English, Maori, German] ! i \<in> {English, Maori, German}"
    and "int i + 1 \<in> {1, 2, 3}"
proof -
  from assms consider "i = 0" | "i = 1" | "i = 2" by linarith
  then show "LANGUAGE_CODES (int i + 1) = Some ([English, Maori, German] ! i)"
    by cases (simp_all add: LANGUAGE_CODES_lookup)
  from assms consider "i = 0" | "i = 1" | "i = 2" by linarith
  then show "[English, Maori, German] ! i \<in> {English, Maori, German}"
    by cases simp_all
  from assms show "int i + 1 \<in> {1, 2, 3}" by auto
qed

text \<open>
  C6.  A valid request read from the i-th socket of the three (i = 0, 1, 2) is answered
  on that socket, to the sender, with one datagram whose MagicNo is 0x36FB, whose
  PacketType is 2, whose LangCode is i + 1, and whose text is the UTF-8 encoding of what
  the date or time formatter of the i-th language (English, Maori, German) gives for the
  current date-time.  The clock reading is a Python datetime and the send succeeds.
\<close>

theorem socket_language_reply:
  assumes "length sockets = 3" and "distinct sockets" and "i < 3"
    and "valid_datetime now"
    and "length data = 6"
    and "from_bytes_big (py_slice data 0 2) = MAGIC_NO"
    and "from_bytes_big (py_slice data 2 4) = DT_REQUEST"
    and "from_bytes_big (py_slice data 4 6) \<in> {1, 2}"
  shows "\<exists>text text_bytes response.
           (if from_bytes_big (py_slice data 4 6) = 1
            then format_date now ([English, Maori, German] ! i)
            else format_time now ([English, Maori, German] ! i)) = Inr (Some text)
           \<and> utf8_encode text = Inr text_bytes
           \<and> serve_socket sockets (sockets ! i) (Datagram data addr) now True
               = ([Print (([English, Maori, German] ! i)
                          @ (if from_bytes_big (py_slice data 4 6) = 1
                             then ustr '' received date request from ''
                             else ustr '' received time request from '') @ fst addr),
                   SendTo (sockets ! i) response addr, Print (ustr ''Response sent'')], False)
           \<and> from_bytes_big (py_slice response 0 2) = 0x36FB
           \<and> from_bytes_big (py_slice response 2 4) = 0x0002
           \<and> from_bytes_big (py_slice response 4 6) = int i + 1
           \<and> drop 13 response = text_bytes
           \<and> extract_response_data response
               = Inr (0x36FB, 0x0002, int i + 1, text, int (length text_bytes),
                      dt_day now, dt_month now, dt_year now, dt_hour now, dt_minute now)"
proof -
  note l = language_of_socket [OF assms(3)]
  obtain tx text_bytes response where
    h: "(if from_bytes_big (py_slice data 4 6) = 1
            then format_date now ([English, Maori, German] ! i)
            else format_time now ([English, Maori, German] ! i)) = Inr (Some tx)"
      "utf8_encode tx = Inr text_bytes"
      "handle_request data addr (sockets ! i) (int i + 1) now True
               = ([Print (([English, Maori, German] ! i)
                          @ (if from_bytes_big (py_slice data 4 6) = 1
                             then ustr '' received date request from ''
                             else ustr '' received time request from '') @ fst addr),
                   SendTo (sockets ! i) response addr, Print (ustr ''Response sent'')], None)"
      "from_bytes_big (py_slice response 0 2) = MAGIC_NO"
      "from_bytes_big (py_slice response 2 4) = DT_RESPONSE"
      "from_bytes_big (py_slice response 4 6) = int i + 1"
      "drop 13 response = text_bytes"
      "extract_response_data response
               = Inr (MAGIC_NO, DT_RESPONSE, int i + 1, tx, int (length text_bytes),
                      dt_day now, dt_month now, dt_year now, dt_hour now, dt_minute now)"
    using handle_request_served [OF assms(4-8) l(3) l(1) l(2), of addr "sockets ! i"]
    by blast
  have s: "serve_socket sockets (sockets ! i) (Datagram data addr) now True
               = ([Print (([English, Maori, German] ! i)
                          @ (if from_bytes_big (py_slice data 4 6) = 1
                             then ustr '' received date request from ''
                             else ustr '' received time request from '') @ fst addr),
                   SendTo (sockets ! i) response addr, Print (ustr ''Response sent'')], False)"
    by (simp add: serve_socket_def dispatch_index [OF assms(1-3)] h(3))
  from h(1,2) s h(4-8) show ?thesis
    unfolding MAGIC_NO_def DT_RESPONSE_def by blast
qed

lemma example_format_date: "format_date example_now Maori = Inr (Some maori_date_text)"
  using lang_distinct
  by (simp add: format_date_def month_name_def MONTHS_lookup MONTHS_Maori_def py_getitem_def
      example_now_def py_str_def decimal.simps raise_bind_def maori_date_text_def ustr_def)

lemma example_encode:
  "utf8_encode maori_date_text = Inr (drop 13 maori_date_response)"
  by (simp add: utf8_encode_def maori_date_text_def maori_date_response_def ustr_def
      is_scalar_def enc_cp_def)

lemma example_fill_maori:
  "fill_packet_fields (bytearray (13 + length (drop 13 maori_date_response))) 2 example_now
     (drop 13 maori_date_response) = Inr maori_date_response"
  by (subst fill_packet_fields_eq)
     (simp_all add: example_now_def maori_date_response_def)

theorem socket_language_reply_witness:
  "length example_sockets = 3 \<and> distinct example_sockets \<and> example_sockets ! 1 = 4
   \<and> valid_datetime example_now
   \<and> serve_socket example_sockets 4 (Datagram date_request example_addr) example_now True
       = ([Print (Maori @ ustr '' received date request from '' @ ustr ''127.0.0.1''),
           SendTo 4 maori_date_response example_addr, Print (ustr ''Response sent'')], False)
   \<and> extract_response_data maori_date_response
       = Inr (0x36FB, 0x0002, 2, maori_date_text, 42, 17, 5, 2024, 9, 30)"
proof -
  have a: "length example_sockets = 3" "distinct example_sockets" "(1::nat) < 3"
    "example_sockets ! 1 = 4"
    by (simp_all add: example_sockets_def)
  have v: "valid_datetime example_now"
    by (simp add: valid_datetime_def example_now_def)
  have d: "length date_request = 6"
    "from_bytes_big (py_slice date_request 0 2) = MAGIC_NO"
    "from_bytes_big (py_slice date_request 2 4) = DT_REQUEST"
    "from_bytes_big (py_slice date_request 4 6) = 1"
    by (simp_all add: date_request_def py_slice_def from_bytes_big_def MAGIC_NO_def
        DT_REQUEST_def)
  have d1: "from_bytes_big (py_slice date_request 4 6) \<in> {1, 2}"
    using d(4) by simp
  obtain tx text_bytes response where
    h: "format_date example_now Maori = Inr (Some tx)"
      "utf8_encode tx = Inr text_bytes"
      "serve_socket example_sockets 4 (Datagram date_request example_addr) example_now True
         = ([Print (Maori @ ustr '' received date request from '' @ fst example_addr),
             SendTo 4 response example_addr, Print (ustr ''Response sent'')], False)"
      "extract_response_data response
         = Inr (0x36FB, 0x0002, 2, tx, int (length text_bytes),
                dt_day example_now, dt_month example_now, dt_year example_now,
                dt_hour example_now, dt_minute example_now)"
    using socket_language_reply [OF a(1-3) v d(1-3) d1, of example_addr] a(4) d(4)
    by auto
  have t: "tx = maori_date_text" using h(1) example_format_date by simp
  then have b: "text_bytes = drop 13 maori_date_response"
    using h(2) example_encode by simp
  have "send_text (Some maori_date_text) example_addr 4 2 example_now True
          = ([SendTo 4 maori_date_response example_addr, Print (ustr ''Response sent'')], None)"
    using example_fill_maori
    by (simp add: send_text_def example_encode maori_date_response_def)
  then have "handle_request date_request example_addr 4 2 example_now True
          = ([Print (Maori @ ustr '' received date request from '' @ fst example_addr),
              SendTo 4 maori_date_response example_addr, Print (ustr ''Response sent'')], None)"
    using d example_format_date
    by (simp add: handle_request_def Let_def validate_field_def LANGUAGE_CODES_lookup)
  then have "serve_socket example_sockets 4 (Datagram date_request example_addr)
               example_now True
          = ([Print (Maori @ ustr '' received date request from '' @ fst example_addr),
              SendTo 4 maori_date_response example_addr, Print (ustr ''Response sent'')], False)"
    by (simp add: serve_socket_def dispatch_def py_getitem_def example_sockets_def)
  with h(3) have r: "response = maori_date_response" by simp
  have l: "int (length text_bytes) = 42"
    unfolding b by (simp add: maori_date_response_def)
  from a v h(3,4) show ?thesis
    unfolding r t l by (simp add: example_addr_def example_now_def)
qed

section \<open>Port configuration check\<close>

lemma parse_ports_Some:
  "snd (parse_ports py_int args acc) = Some ps
     \<longleftrightarrow> (\<exists>vs. map py_int args = map Some vs \<and> ps = acc @ vs)"
proof (induction args arbitrary: acc)
  case Nil
  show ?case by auto
next
  case (Cons arg args)
  show ?case
  proof (cases "py_int arg")
    case None
    then show ?thesis by (auto simp add: map_eq_Cons_conv)
  next
    case (Some port)
    then show ?thesis
      using Cons.IH [of "acc @ [port]"]
      by (auto simp add: map_eq_Cons_conv Cons_eq_map_conv)
  qed
qed

lemma parse_ports_prints:
  "a \<in> set (fst (parse_ports py_int args acc)) \<Longrightarrow> \<exists>line. a = Print line"
proof (induction args arbitrary: acc)
  case Nil
  then show ?case by simp
next
  case (Cons arg args)
  then show ?case by (cases "py_int arg") auto
qed

lemma get_valid_portnum_prints:
  assumes "a \<in> set (fst (get_valid_portnum py_int argv))"
  shows "\<exists>line. a = Print line"
proof -
  obtain out r where p: "parse_ports py_int (drop 1 argv) [] = (out, r)"
    by (cases "parse_ports py_int (drop 1 argv) []")
  have o: "\<exists>line. b = Print line" if "b \<in> set out" for b
    using parse_ports_prints [of b py_int "drop 1 argv" "[]"] that p by simp
  show ?thesis
    using assms o p
    by (auto simp add: get_valid_portnum_def split: if_splits option.splits)
qed

lemma get_valid_portnum_ending:
  "snd (get_valid_portnum py_int argv) = SysExit 1
   \<or> snd (get_valid_portnum py_int argv) = Returned None
   \<or> (\<exists>ports. snd (get_valid_portnum py_int argv) = Returned (Some ports))"
  by (auto simp add: get_valid_portnum_def split: prod.splits option.splits)

lemma three_distinct:
  assumes "length (ps :: int list) = 3"
  shows "length (remdups ps) = 3 \<longleftrightarrow> distinct ps"
  using assms length_remdups_eq [of ps] by (metis distinct_remdups remdups_id_iff_distinct)

lemma get_valid_portnum_Some:
  "snd (get_valid_portnum py_int argv) = Returned (Some ports)
     \<longleftrightarrow> length argv = 4 \<and> map py_int (drop 1 argv) = map Some ports \<and> distinct ports
         \<and> (\<forall>p \<in> set ports. 1024 \<le> p \<and> p \<le> 64000)"
proof (cases "length argv = 4")
  case False
  then show ?thesis by (simp add: get_valid_portnum_def)
next
  case True
  obtain out r where p: "parse_ports py_int (drop 1 argv) [] = (out, r)"
    by (cases "parse_ports py_int (drop 1 argv) []")
  show ?thesis
  proof (cases r)
    case None
    then have "\<not> (\<exists>vs. map py_int (drop 1 argv) = map Some vs)"
      using parse_ports_Some [of py_int "drop 1 argv" "[]"] p by auto
    then show ?thesis using True p None by (auto simp add: get_valid_portnum_def)
  next
    case (Some ps)
    then have m: "map py_int (drop 1 argv) = map Some ps"
      using parse_ports_Some [of py_int "drop 1 argv" "[]" ps] p by auto
    then have "length ps = length (drop 1 argv)" by (metis length_map)
    then have l: "length ps = 3" using True by simp
    have e: "map py_int (drop 1 argv) = map Some ports \<longleftrightarrow> ports = ps"
      using m by (auto simp add: inj_map_eq_map)
    show ?thesis
      using True p Some three_distinct [OF l] e
      by (auto simp add: get_valid_portnum_def list_all_iff list_ex_iff)
  qed
qed

text \<open>
  C8.  \<open>get_valid_portnum\<close> returns a list of ports exactly when there are three
  arguments, all three are parsed as integers, the ports are pairwise distinct and each
  lies in 1024..64000; the list is then the three parsed ports.  In every other case
  \<open>main\<close> exits with status 1 having only printed: no socket is created or bound.
\<close>

theorem port_configuration:
  "(snd (get_valid_portnum py_int argv) = Returned (Some ports)
     \<longleftrightarrow> length argv = 4 \<and> map py_int (drop 1 argv) = map Some ports \<and> distinct ports
         \<and> (\<forall>p \<in> set ports. 1024 \<le> p \<and> p \<le> 64000))
   \<and> ((\<forall>ps. snd (get_valid_portnum py_int argv) \<noteq> Returned (Some ps))
        \<longrightarrow> snd (main_startup py_int os argv) = SysExit 1
            \<and> (\<forall>a \<in> set (fst (main_startup py_int os argv)). \<exists>line. a = Print line))"
proof (intro conjI impI)
  show "snd (get_valid_portnum py_int argv) = Returned (Some ports)
     \<longleftrightarrow> length argv = 4 \<and> map py_int (drop 1 argv) = map Some ports \<and> distinct ports
         \<and> (\<forall>p \<in> set ports. 1024 \<le> p \<and> p \<le> 64000)"
    by (rule get_valid_portnum_Some)
next
  assume n: "\<forall>ps. snd (get_valid_portnum py_int argv) \<noteq> Returned (Some ps)"
  obtain out r where g: "get_valid_portnum py_int argv = (out, r)"
    by (cases "get_valid_portnum py_int argv")
  have r: "r = SysExit 1 \<or> r = Returned None"
    using get_valid_portnum_ending [of py_int argv] n g by auto
  then have m: "main_startup py_int os argv = (out, SysExit 1)"
    using g by (auto simp add: main_startup_def)
  show "snd (main_startup py_int os argv) = SysExit 1"
    using m by simp
  show "\<forall>a \<in> set (fst (main_startup py_int os argv)). \<exists>line. a = Print line"
    using m g get_valid_portnum_prints [of _ py_int argv] by auto
qed

lemma example_parse:
  "decimal_int (ustr ''30001'') = Some 30001" "decimal_int (ustr ''30002'') = Some 30002"
  "decimal_int (ustr ''30003'') = Some 30003" "decimal_int (ustr ''80'') = Some 80"
  by (simp_all add: decimal_int_def ustr_def)

theorem port_configuration_witness:
  "snd (get_valid_portnum decimal_int good_argv) = Returned (Some [30001, 30002, 30003])
   \<and> snd (main_startup decimal_int all_bound port80_argv) = SysExit 1
   \<and> fst (main_startup decimal_int all_bound port80_argv)
       = [Print (ustr ''ERROR: Given port '' @ [39] @ ustr ''80'' @ [39] @ ustr '' is not in the range [1024, 64000]'')]
   \<and> snd (main_startup decimal_int all_bound duplicate_argv) = SysExit 1
   \<and> fst (main_startup decimal_int all_bound duplicate_argv)
       = [Print (ustr ''ERROR: Duplicate ports given'')]"
proof -
  have g: "snd (get_valid_portnum decimal_int good_argv)
             = Returned (Some [30001, 30002, 30003])"
    using port_configuration [of decimal_int good_argv "[30001, 30002, 30003]"]
    by (simp add: good_argv_def example_parse)
  have p: "map decimal_int (drop 1 port80_argv) = map Some [80, 30002, 30003]"
    by (simp add: port80_argv_def example_parse)
  have "\<forall>ps. snd (get_valid_portnum decimal_int port80_argv) \<noteq> Returned (Some ps)"
  proof
    fix ps
    have "map decimal_int (drop 1 port80_argv) = map Some ps \<Longrightarrow> ps = [80, 30002, 30003]"
      unfolding p by (auto simp add: Cons_eq_map_conv)
    then show "snd (get_valid_portnum decimal_int port80_argv) \<noteq> Returned (Some ps)"
      using port_configuration [of decimal_int port80_argv ps] by auto
  qed
  then have b: "snd (main_startup decimal_int all_bound port80_argv) = SysExit 1"
    using port_configuration [of decimal_int port80_argv _ all_bound] by blast
  have b': "fst (main_startup decimal_int all_bound port80_argv)
       = [Print (ustr ''ERROR: Given port '' @ [39] @ ustr ''80'' @ [39] @ ustr '' is not in the range [1024, 64000]'')]"
    apply (simp add: main_startup_def get_valid_portnum_def port80_argv_def example_parse)
    apply (simp add: py_str_def decimal.simps ustr_def)
    done
  have q: "map decimal_int (drop 1 duplicate_argv) = map Some [30001, 30001, 30003]"
    by (simp add: duplicate_argv_def example_parse)
  have "\<forall>ps. snd (get_valid_portnum decimal_int duplicate_argv) \<noteq> Returned (Some ps)"
  proof
    fix ps
    have "map decimal_int (drop 1 duplicate_argv) = map Some ps
            \<Longrightarrow> ps = [30001, 30001, 30003]"
      unfolding q by (auto simp add: Cons_eq_map_conv)
    then show "snd (get_valid_portnum decimal_int duplicate_argv) \<noteq> Returned (Some ps)"
      using port_configuration [of decimal_int duplicate_argv ps] by auto
  qed
  then have d: "snd (main_startup decimal_int all_bound duplicate_argv) = SysExit 1"
    using port_configuration [of decimal_int duplicate_argv _ all_bound] by blast
  have d': "fst (main_startup decimal_int all_bound duplicate_argv)
       = [Print (ustr ''ERROR: Duplicate ports given'')]"
    by (simp add: main_startup_def get_valid_portnum_def duplicate_argv_def example_parse)
  from g b b' d d' show ?thesis by blast
qed

end
